theory Spec2Isabelle
  imports Complex_Main "HOL-Library.Word" "HOL-Library.Sublist" "HOL-Library.Multiset"
    "HOL-Library.Product_Lexorder"
begin

section \<open>Errors\<close>

text \<open>
  Go errors as values. The sentinels are the package-level error variables the source
  compares against with \<^verbatim>\<open>errors.Is\<close>: \<^verbatim>\<open>pbm.ErrNotFound\<close>,
  \<^verbatim>\<open>mongo.ErrNoDocuments\<close>, \<^verbatim>\<open>snappy.ErrCorrupt\<close> and the restore package's
  own \<^verbatim>\<open>errConvergeTimeOut\<close>. \<open>ErrNew\<close> is an error made by \<^verbatim>\<open>errors.New\<close> or
  \<^verbatim>\<open>errors.Errorf\<close> (its rendered message), \<open>ErrWrap\<close> is \<^verbatim>\<open>errors.Wrap\<close> /
  \<^verbatim>\<open>errors.Wrapf\<close> around a cause.
\<close>

datatype error =
    ErrNotFound
  | ErrNoDocuments
  | ErrCorrupt
  | ErrConvergeTimeOut
  | ErrNew string
  | ErrWrap error string

text \<open>\<^verbatim>\<open>errors.Is(err, target)\<close>: the error or one of the causes it wraps is the target.\<close>

fun errIs :: "error \<Rightarrow> error \<Rightarrow> bool" where
  "errIs (ErrWrap cause msg) target = (ErrWrap cause msg = target \<or> errIs cause target)"
| "errIs err target = (err = target)"

text \<open>\<^verbatim>\<open>err.Error()\<close>: a wrapped error prints its message, a colon and the cause.\<close>

fun Error_msg :: "error \<Rightarrow> string" where
  "Error_msg ErrNotFound = ''not found''"
| "Error_msg ErrNoDocuments = ''mongo: no documents in result''"
| "Error_msg ErrCorrupt = ''snappy: corrupt input''"
| "Error_msg ErrConvergeTimeOut = ''reached converge timeout''"
| "Error_msg (ErrNew s) = s"
| "Error_msg (ErrWrap cause msg) = msg @ '': '' @ Error_msg cause"


section \<open>Formatting\<close>

text \<open>The verbs \<^verbatim>\<open>%d\<close> (an unsigned integer in decimal) and \<^verbatim>\<open>%v\<close> of a struct.\<close>

definition digit :: "nat \<Rightarrow> char" where
  "digit n = ''0123456789'' ! n"

function fmt_d :: "nat \<Rightarrow> string" where
  "fmt_d n = (if n < 10 then [digit n] else fmt_d (n div 10) @ [digit (n mod 10)])"
  by pat_completeness auto
termination
  by (relation "measure id") auto

declare fmt_d.simps [simp del]

section \<open>Timestamps\<close>

text \<open>
  \<^verbatim>\<open>primitive.Timestamp\<close> of the MongoDB driver: two unsigned 32-bit fields, the
  seconds \<open>T\<close> and the ordinal \<open>I\<close>. \<^verbatim>\<open>primitive.CompareTimestamp\<close> orders
  timestamps by \<open>T\<close> first and \<open>I\<close> second and answers -1, 0 or 1.
\<close>

record Timestamp =
  ts_T :: "32 word"
  ts_I :: "32 word"

definition CompareTimestamp :: "Timestamp \<Rightarrow> Timestamp \<Rightarrow> int" where
  "CompareTimestamp tp tp2 =
     (if ts_T tp = ts_T tp2 \<and> ts_I tp = ts_I tp2 then 0
      else if ts_T tp < ts_T tp2 \<or> (ts_T tp = ts_T tp2 \<and> ts_I tp < ts_I tp2) then - 1
      else 1)"

definition fmt_ts :: "Timestamp \<Rightarrow> string" where
  "fmt_ts ts = ''{'' @ fmt_d (unat (ts_T ts)) @ '' '' @ fmt_d (unat (ts_I ts)) @ ''}''"

section \<open>The data model of the restore package\<close>

text \<open>
  \<^verbatim>\<open>pbm.Status\<close> and \<^verbatim>\<open>compress.CompressionType\<close> are string types in Go.
  Modelled from the spec: the declarations of \<^verbatim>\<open>pbm.StatusDone\<close>,
  \<^verbatim>\<open>pbm.StatusError\<close>, \<^verbatim>\<open>pbm.CmdRestore\<close> and
  \<^verbatim>\<open>compress.CompressionTypeS2\<close> are outside the listed sources; the spec names the
  statuses "done" and "error", the restore command and the S2 codec.
\<close>

type_synonym Status = string
type_synonym Command = string
type_synonym CompressionType = string

definition StatusDone :: Status where
  "StatusDone = ''done''"

definition StatusError :: Status where
  "StatusError = ''error''"

definition CmdRestore :: Command where
  "CmdRestore = ''restore''"


text \<open>
  The structs the source reads. Only the fields the listed sources touch are kept:
  \<^verbatim>\<open>pbm.OplogChunk\<close>, \<^verbatim>\<open>pbm.RestoreReplset\<close> (an element of
  \<^verbatim>\<open>RestoreMeta.Replsets\<close>), \<^verbatim>\<open>pbm.RestoreMeta\<close>, \<^verbatim>\<open>pbm.LockHeader\<close>,
  \<^verbatim>\<open>pbm.LockData\<close> and \<^verbatim>\<open>pbm.Shard\<close>. The fields of a record are constants
  of one name space, so a field that several structs have carries a prefix for its
  struct: \<open>rm_Status\<close> is \<^verbatim>\<open>RestoreMeta.Status\<close>, \<open>rs_Status\<close> the
  \<^verbatim>\<open>Status\<close> of a replica set's record, \<open>sh_RS\<close> is \<^verbatim>\<open>Shard.RS\<close>, and
  likewise \<open>lh_\<close> for the lock header, \<open>ts_\<close> for a timestamp and, further
  down, \<open>ns_\<close> and \<open>np_\<close> for \<^verbatim>\<open>nodeScores\<close> and \<^verbatim>\<open>NodesPriority\<close>.
\<close>

record OplogChunk =
  FName :: string
  Compression :: CompressionType
  StartTS :: Timestamp
  EndTS :: Timestamp

record RestoreReplset =
  rs_Name :: string
  rs_Status :: Status
  rs_Error :: string

record RestoreMeta =
  rm_Name :: string
  rm_Status :: Status
  rm_Error :: string
  rm_Hb :: Timestamp
  rm_Replsets :: "RestoreReplset list"

record LockHeader =
  lh_Type :: Command
  lh_OPID :: string
  lh_Replset :: string

record LockData =
  Heartbeat :: Timestamp

record Shard =
  sh_RS :: string

section \<open>Scores, Go maps, agents and the configuration\<close>

text \<open>
  A \<^verbatim>\<open>float64\<close> is NaN, an infinity or a finite value. Finite values are real
  numbers here and rounding is not modelled: the only arithmetic the source does at run
  time is the product \<^verbatim>\<open>defaultScore * coeff\<close> with the constant 1, which is exact.
  The two zeros are one value; Go compares them equal, also as map keys.
  \<open>f64_eq\<close> and \<open>f64_less\<close> are Go's \<^verbatim>\<open>==\<close> and \<^verbatim>\<open><\<close>: every comparison
  with NaN is false, so NaN is not equal to itself.
\<close>

datatype float64 = NaN | NegInf | Fin real | PosInf

definition f64_eq :: "float64 \<Rightarrow> float64 \<Rightarrow> bool" where
  "f64_eq a b = (a \<noteq> NaN \<and> b \<noteq> NaN \<and> a = b)"

fun f64_less :: "float64 \<Rightarrow> float64 \<Rightarrow> bool" where
  "f64_less NaN b = False"
| "f64_less a NaN = False"
| "f64_less NegInf b = (b \<noteq> NegInf)"
| "f64_less a NegInf = False"
| "f64_less PosInf b = False"
| "f64_less (Fin x) PosInf = True"
| "f64_less (Fin x) (Fin y) = (x < y)"

text \<open>The product: NaN when an operand is NaN or zero meets an infinity.\<close>

fun f64_mul :: "float64 \<Rightarrow> float64 \<Rightarrow> float64" where
  "f64_mul NaN b = NaN"
| "f64_mul a NaN = NaN"
| "f64_mul (Fin x) (Fin y) = Fin (x * y)"
| "f64_mul (Fin x) PosInf = (if x = 0 then NaN else if 0 < x then PosInf else NegInf)"
| "f64_mul (Fin x) NegInf = (if x = 0 then NaN else if 0 < x then NegInf else PosInf)"
| "f64_mul PosInf (Fin y) = (if y = 0 then NaN else if 0 < y then PosInf else NegInf)"
| "f64_mul NegInf (Fin y) = (if y = 0 then NaN else if 0 < y then NegInf else PosInf)"
| "f64_mul PosInf PosInf = PosInf"
| "f64_mul PosInf NegInf = NegInf"
| "f64_mul NegInf PosInf = NegInf"
| "f64_mul NegInf NegInf = PosInf"

text \<open>
  A Go map with \<^verbatim>\<open>float64\<close> keys is the list of its entries; a key is found by
  \<^verbatim>\<open>==\<close>. A NaN key is therefore never found: reading it misses, and storing
  under it adds one more entry.
\<close>

type_synonym 'v f64map = "(float64 \<times> 'v) list"

fun f64map_get :: "'v f64map \<Rightarrow> float64 \<Rightarrow> 'v option" where
  "f64map_get [] k = None"
| "f64map_get (kv # kvs) k = (if f64_eq (fst kv) k then Some (snd kv) else f64map_get kvs k)"

fun f64map_put :: "'v f64map \<Rightarrow> float64 \<Rightarrow> 'v \<Rightarrow> 'v f64map" where
  "f64map_put [] k v = [(k, v)]"
| "f64map_put (kv # kvs) k v =
     (if f64_eq (fst kv) k then (fst kv, v) # kvs else kv # f64map_put kvs k v)"

text \<open>
  A Go map with string keys that the code tests against \<^verbatim>\<open>nil\<close> or measures with
  \<^verbatim>\<open>len\<close> is \<open>None\<close> when nil and otherwise \<open>Some\<close> of its entries.
\<close>

type_synonym 'v gomap = "(string \<times> 'v) list option"

definition map_get :: "'v gomap \<Rightarrow> string \<Rightarrow> 'v option" where
  "map_get mp k = (case mp of None \<Rightarrow> None | Some kvs \<Rightarrow> map_of kvs k)"

definition map_len :: "'v gomap \<Rightarrow> nat" where
  "map_len mp = (case mp of None \<Rightarrow> 0 | Some kvs \<Rightarrow> length (remdups (map fst kvs)))"

text \<open>
  \<^verbatim>\<open>const defaultScore = 1.0\<close> is an untyped constant. \<^verbatim>\<open>defaultScore / 2\<close> and
  \<^verbatim>\<open>defaultScore * 2\<close> are constant expressions, which Go evaluates exactly before
  they become \<^verbatim>\<open>float64\<close> values.
\<close>

definition defaultScore :: real where
  "defaultScore = 1"

text \<open>
  Modelled from the spec: \<^verbatim>\<open>AgentStat\<close>, its method \<^verbatim>\<open>OK\<close>, \<^verbatim>\<open>NodeState\<close> and
  the configuration struct are declared outside the listed sources. The spec's agent
  state is "{replica-set, node-id, role, hidden-flag, health}", and only nodes
  "reporting healthy status" are scored; the configuration carries the cluster-level
  priority map \<^verbatim>\<open>cfg.Backup.Priority\<close>.
\<close>

datatype NodeState = NodeStatePrimary | NodeStateSecondary | NodeStateOther nat

record AgentStat =
  Node :: string
  RS :: string
  State :: NodeState
  Hidden :: bool
  Healthy :: bool

definition AgentStat_OK :: "AgentStat \<Rightarrow> bool" where
  "AgentStat_OK a = Healthy a"

record Config =
  Backup_Priority :: "float64 gomap"

section \<open>The shared store and the object storage\<close>

text \<open>
  Modelled from the spec: the methods of \<^verbatim>\<open>*pbm.PBM\<close> that the restore package
  calls are declared outside the listed sources. The spec's shared metadata store
  exposes "get/set per-restore metadata, get/set per-shard lock with heartbeat, get
  cluster logical time", the chunk index and the configuration. A value of \<open>PBM\<close> is
  the store at one moment: each read is a field holding the answer the store gives (an
  error or a value), \<open>ChangeRestoreState_err\<close> is the outcome the store has for a
  global status write, and \<open>write_calls\<close> logs every call of
  \<^verbatim>\<open>ChangeRestoreState\<close> in order.
\<close>

record PBM =
  GetConfig :: "error + Config"
  GetRestoreMeta :: "string \<Rightarrow> error + RestoreMeta"
  ClusterTime :: "error + Timestamp"
  GetLockData :: "LockHeader \<Rightarrow> error + LockData"
  PITRGetChunksSlice :: "string \<Rightarrow> Timestamp \<Rightarrow> Timestamp \<Rightarrow> error + OplogChunk list"
  ChangeRestoreState_err :: "error option"
  write_calls :: "(string \<times> Status \<times> string) list"

text \<open>
  Modelled from the spec: \<^verbatim>\<open>ChangeRestoreState(name, status, msg)\<close> is the global
  status commit, a single atomic update of the restore record's status and error. The
  call is logged; when the store accepts it the named record, if there is one, gets
  the new status and message.
\<close>

definition ChangeRestoreState :: "PBM \<Rightarrow> string \<Rightarrow> Status \<Rightarrow> string \<Rightarrow> error option \<times> PBM" where
  "ChangeRestoreState cn name s msg =
     (let logged = cn\<lparr>write_calls := write_calls cn @ [(name, s, msg)]\<rparr> in
      case ChangeRestoreState_err cn of
        Some err \<Rightarrow> (Some err, logged)
      | None \<Rightarrow>
          (None,
           logged\<lparr>GetRestoreMeta := (GetRestoreMeta cn)
             (name := (case GetRestoreMeta cn name of
                         Inl e \<Rightarrow> Inl e
                       | Inr m \<Rightarrow> Inr (m\<lparr>rm_Status := s, rm_Error := msg\<rparr>)))\<rparr>))"

text \<open>
  \<^verbatim>\<open>storage.Storage\<close>, an out-of-scope collaborator: \<^verbatim>\<open>FileStat\<close> answers a file's
  size or an error, \<^verbatim>\<open>SourceReader\<close> the object's bytes or an error.
\<close>

type_synonym byte = "8 word"

record Storage =
  FileStat :: "string \<Rightarrow> error + nat"
  SourceReader :: "string \<Rightarrow> error + byte list"

section \<open>chunks: the chunk continuity validator\<close>

text \<open>
  The loop of \<^verbatim>\<open>chunks\<close> over the fetched list, with the running pointer
  \<open>lastTS\<close> (the Go variable \<^verbatim>\<open>last\<close>): \<open>Some\<close> the error of the first
  failing check, \<open>None\<close> when the walk reaches the end.
\<close>

fun chunks_walk :: "Storage \<Rightarrow> Timestamp \<Rightarrow> OplogChunk list \<Rightarrow> error option" where
  "chunks_walk stg lastTS [] = None"
| "chunks_walk stg lastTS (c # cs) =
     (if CompareTimestamp lastTS (StartTS c) = - 1
      then Some (ErrNew (''integrity vilolated, expect chunk with start_ts '' @ fmt_ts lastTS
                         @ '', but got '' @ fmt_ts (StartTS c)))
      else (case FileStat stg (FName c) of
              Inl err \<Rightarrow>
                Some (ErrNew (''failed to ensure chunk '' @ fmt_ts (StartTS c) @ ''.''
                              @ fmt_ts (EndTS c) @ '' on the storage, file: '' @ FName c
                              @ '', error: '' @ Error_msg err))
            | Inr _ \<Rightarrow> chunks_walk stg (EndTS c) cs))"

text \<open>
  \<^verbatim>\<open>chunks(cn, stg, from, to, rsName, rsMap)\<close>. \<^verbatim>\<open>pbm.MakeReverseRSMapFunc\<close> is
  declared outside the listed sources and is taken as the parameter \<open>mkRev\<close> (the
  spec: "name mapping is an injected pure function"). The Go parameters \<^verbatim>\<open>from\<close>
  and \<^verbatim>\<open>to\<close> are \<open>fromTS\<close> and \<open>toTS\<close> here.
\<close>

definition chunks ::
  "((string \<rightharpoonup> string) \<Rightarrow> string \<Rightarrow> string) \<Rightarrow> PBM \<Rightarrow> Storage \<Rightarrow> Timestamp \<Rightarrow> Timestamp
     \<Rightarrow> string \<Rightarrow> (string \<rightharpoonup> string) \<Rightarrow> error + OplogChunk list" where
  "chunks mkRev cn stg fromTS toTS rsName rsMap =
     (let mapRevRS = mkRev rsMap in
      case PITRGetChunksSlice cn (mapRevRS rsName) fromTS toTS of
        Inl err \<Rightarrow> Inl (ErrWrap err ''get chunks index'')
      | Inr cs \<Rightarrow>
          if length cs = 0 then Inl (ErrNew ''no chunks found'')
          else if CompareTimestamp (EndTS (last cs)) toTS = - 1
          then Inl (ErrNew (''no chunk with the target time, the last chunk ends on ''
                            @ fmt_ts (EndTS (last cs))))
          else (case chunks_walk stg fromTS cs of
                  Some e \<Rightarrow> Inl e
                | None \<Rightarrow> Inr cs))"

section \<open>converged: one poll of the leader\<close>

text \<open>
  The liveness check of \<^verbatim>\<open>converged\<close> for the replica set \<open>rsName\<close>: the lock is
  read first; unless the target status is \<^verbatim>\<open>pbm.StatusDone\<close> or the read answered
  \<^verbatim>\<open>mongo.ErrNoDocuments\<close>, any other read error and a heartbeat with
  \<^verbatim>\<open>lock.Heartbeat.T+pbm.StaleFrameSec < clusterTime.T\<close> (unsigned 32-bit arithmetic)
  end the poll. \<^verbatim>\<open>pbm.StaleFrameSec\<close> is declared outside the listed sources and is
  the parameter \<open>sf\<close> of every function that uses it. \<open>Some\<close> is the error
  returned, \<open>None\<close> means the check passed.
\<close>

definition lockCheck :: "32 word \<Rightarrow> PBM \<Rightarrow> string \<Rightarrow> Status \<Rightarrow> Timestamp \<Rightarrow> string \<Rightarrow> error option" where
  "lockCheck sf cn opid status clusterTime rsName =
     (case GetLockData cn \<lparr>lh_Type = CmdRestore, lh_OPID = opid, lh_Replset = rsName\<rparr> of
        Inl err \<Rightarrow>
          if status \<noteq> StatusDone \<and> \<not> errIs err ErrNoDocuments
          then Some (ErrWrap err (''unable to read lock for shard '' @ rsName))
          else None
      | Inr lock \<Rightarrow>
          if status \<noteq> StatusDone
          then (if ts_T (Heartbeat lock) + sf < ts_T clusterTime
                then Some (ErrNew (''lost shard '' @ rsName @ '', last beat ts: ''
                                   @ fmt_d (unat (ts_T (Heartbeat lock)))))
                else None)
          else None)"

text \<open>
  The inner loop of \<^verbatim>\<open>converged\<close>: for the shard \<open>shRS\<close> (\<^verbatim>\<open>sh.RS\<close>) walk
  \<^verbatim>\<open>bmeta.Replsets\<close> with the counter \<^verbatim>\<open>shardsToFinish\<close>. \<open>Inl\<close> is an early
  return \<^verbatim>\<open>(false, err)\<close> together with the local \<^verbatim>\<open>bmeta\<close> as the function leaves
  it; \<open>Inr\<close> is the counter after the walk. The switch takes its first matching
  case, so the target status is tested before \<^verbatim>\<open>pbm.StatusError\<close>.
\<close>

fun converged_replsets ::
  "32 word \<Rightarrow> PBM \<Rightarrow> string \<Rightarrow> Status \<Rightarrow> Timestamp \<Rightarrow> RestoreMeta \<Rightarrow> string
     \<Rightarrow> RestoreReplset list \<Rightarrow> int \<Rightarrow> (error \<times> RestoreMeta) + int" where
  "converged_replsets sf cn opid status clusterTime bmeta shRS [] shardsToFinish = Inr shardsToFinish"
| "converged_replsets sf cn opid status clusterTime bmeta shRS (shard # rest) shardsToFinish =
     (if rs_Name shard = shRS
      then (case lockCheck sf cn opid status clusterTime (rs_Name shard) of
              Some err \<Rightarrow> Inl (err, bmeta)
            | None \<Rightarrow>
                if rs_Status shard = status
                then converged_replsets sf cn opid status clusterTime bmeta shRS rest (shardsToFinish - 1)
                else if rs_Status shard = StatusError
                then Inl (ErrNew (''restore on the shard '' @ rs_Name shard @ '' failed with: ''
                                  @ rs_Error shard),
                          bmeta\<lparr>rm_Status := StatusError, rm_Error := rs_Error shard\<rparr>)
                else converged_replsets sf cn opid status clusterTime bmeta shRS rest shardsToFinish)
      else converged_replsets sf cn opid status clusterTime bmeta shRS rest shardsToFinish)"

text \<open>The outer loop of \<^verbatim>\<open>converged\<close> over \<^verbatim>\<open>shards\<close>.\<close>

fun converged_shards ::
  "32 word \<Rightarrow> PBM \<Rightarrow> string \<Rightarrow> Status \<Rightarrow> Timestamp \<Rightarrow> RestoreMeta \<Rightarrow> Shard list \<Rightarrow> int
     \<Rightarrow> (error \<times> RestoreMeta) + int" where
  "converged_shards sf cn opid status clusterTime bmeta [] shardsToFinish = Inr shardsToFinish"
| "converged_shards sf cn opid status clusterTime bmeta (sh # shs) shardsToFinish =
     (case converged_replsets sf cn opid status clusterTime bmeta (sh_RS sh) (rm_Replsets bmeta)
             shardsToFinish of
        Inl ret \<Rightarrow> Inl ret
      | Inr n \<Rightarrow> converged_shards sf cn opid status clusterTime bmeta shs n)"

text \<open>
  \<^verbatim>\<open>converged(cn, name, opid, shards, status)\<close>. The result has three parts: the Go
  return value \<^verbatim>\<open>(bool, error)\<close>, the local \<^verbatim>\<open>bmeta\<close> when the function returns
  (\<open>None\<close> before it is fetched), and the store after the call. \<open>converged\<close> below
  is the return value with the store; \<open>converged_frame\<close> also shows the local copy.
  \<^verbatim>\<open>shardsToFinish\<close> is a Go \<^verbatim>\<open>int\<close>; it stays between \<open>- len(shards) * len(Replsets)\<close>
  and \<open>len(shards)\<close>, so it is an unbounded integer here.
\<close>

definition converged_frame ::
  "32 word \<Rightarrow> PBM \<Rightarrow> string \<Rightarrow> string \<Rightarrow> Shard list \<Rightarrow> Status
     \<Rightarrow> (bool \<times> error option) \<times> RestoreMeta option \<times> PBM" where
  "converged_frame sf cn name opid shards status =
     (case GetRestoreMeta cn name of
        Inl err \<Rightarrow> ((False, Some (ErrWrap err ''get backup metadata'')), None, cn)
      | Inr bmeta \<Rightarrow>
          (case ClusterTime cn of
             Inl err \<Rightarrow> ((False, Some (ErrWrap err ''read cluster time'')), Some bmeta, cn)
           | Inr clusterTime \<Rightarrow>
               (case converged_shards sf cn opid status clusterTime bmeta shards (int (length shards)) of
                  Inl (err, bmeta') \<Rightarrow> ((False, Some err), Some bmeta', cn)
                | Inr shardsToFinish \<Rightarrow>
                    if shardsToFinish = 0
                    then (case ChangeRestoreState cn name status [] of
                            (Some err, cn') \<Rightarrow>
                              ((False, Some (ErrWrap err (''update backup meta with '' @ status))),
                               Some bmeta, cn')
                          | (None, cn') \<Rightarrow> ((True, None), Some bmeta, cn'))
                    else ((False, None), Some bmeta, cn))))"

definition converged ::
  "32 word \<Rightarrow> PBM \<Rightarrow> string \<Rightarrow> string \<Rightarrow> Shard list \<Rightarrow> Status \<Rightarrow> (bool \<times> error option) \<times> PBM" where
  "converged sf cn name opid shards status =
     (case converged_frame sf cn name opid shards status of (ret, _, cn') \<Rightarrow> (ret, cn'))"

section \<open>The polling loops\<close>

text \<open>
  Each loop is \<^verbatim>\<open>for { select { ... } }\<close> over a one-second ticker, the context's
  \<^verbatim>\<open>Done\<close> channel and, in the timeout variant, a second ticker. The case every
  \<^verbatim>\<open>select\<close> takes is an input of the model: the list of events, in order. A tick
  carries what the other agents did to the store since the previous poll. The result is
  \<open>None\<close> while the loop is still blocked in its \<^verbatim>\<open>select\<close> after the last event,
  \<open>Some None\<close> when it returned \<^verbatim>\<open>nil\<close>, and \<open>Some (Some err)\<close> when it returned
  an error.
\<close>

datatype poll_event = Tick "PBM \<Rightarrow> PBM" | Cancelled

datatype poll_event_t = TickT "PBM \<Rightarrow> PBM" | TimedOut | CancelledT

fun convergeCluster ::
  "32 word \<Rightarrow> PBM \<Rightarrow> string \<Rightarrow> string \<Rightarrow> Shard list \<Rightarrow> Status \<Rightarrow> poll_event list
     \<Rightarrow> error option option \<times> PBM" where
  "convergeCluster sf cn name opid shards status [] = (None, cn)"
| "convergeCluster sf cn name opid shards status (Cancelled # evs) = (Some None, cn)"
| "convergeCluster sf cn name opid shards status (Tick others # evs) =
     (case converged sf (others cn) name opid shards status of
        ((ok, Some err), cn') \<Rightarrow> (Some (Some err), cn')
      | ((ok, None), cn') \<Rightarrow>
          if ok then (Some None, cn')
          else convergeCluster sf cn' name opid shards status evs)"

fun convergeClusterWithTimeout ::
  "32 word \<Rightarrow> PBM \<Rightarrow> string \<Rightarrow> string \<Rightarrow> Shard list \<Rightarrow> Status \<Rightarrow> poll_event_t list
     \<Rightarrow> error option option \<times> PBM" where
  "convergeClusterWithTimeout sf cn name opid shards status [] = (None, cn)"
| "convergeClusterWithTimeout sf cn name opid shards status (CancelledT # evs) = (Some None, cn)"
| "convergeClusterWithTimeout sf cn name opid shards status (TimedOut # evs) =
     (Some (Some ErrConvergeTimeOut), cn)"
| "convergeClusterWithTimeout sf cn name opid shards status (TickT others # evs) =
     (case converged sf (others cn) name opid shards status of
        ((ok, Some err), cn') \<Rightarrow> (Some (Some err), cn')
      | ((ok, None), cn') \<Rightarrow>
          if ok then (Some None, cn')
          else convergeClusterWithTimeout sf cn' name opid shards status evs)"

fun waitForStatus ::
  "32 word \<Rightarrow> PBM \<Rightarrow> string \<Rightarrow> Status \<Rightarrow> poll_event list \<Rightarrow> error option option" where
  "waitForStatus sf cn name status [] = None"
| "waitForStatus sf cn name status (Cancelled # evs) = Some None"
| "waitForStatus sf cn name status (Tick others # evs) =
     (case GetRestoreMeta (others cn) name of
        Inl err \<Rightarrow>
          if errIs err ErrNotFound then waitForStatus sf (others cn) name status evs
          else Some (Some (ErrWrap err ''get restore metadata''))
      | Inr meta \<Rightarrow>
          (case ClusterTime (others cn) of
             Inl err \<Rightarrow> Some (Some (ErrWrap err ''read cluster time''))
           | Inr clusterTime \<Rightarrow>
               if ts_T (rm_Hb meta) + sf < ts_T clusterTime
               then Some (Some (ErrNew (''restore stuck, last beat ts: ''
                                        @ fmt_d (unat (ts_T (rm_Hb meta))))))
               else if rm_Status meta = status then Some None
               else if rm_Status meta = StatusError
               then Some (Some (ErrNew (''cluster failed: '' @ rm_Error meta)))
               else waitForStatus sf (others cn) name status evs))"

section \<open>applyOplog: replaying the chunks\<close>





section \<open>Node priorities\<close>

text \<open>
  \<^verbatim>\<open>nodeScores\<close>: the scores in the order they first appeared (\<^verbatim>\<open>idx\<close>) and the
  nodes of each score (\<^verbatim>\<open>m\<close>). \<^verbatim>\<open>NodesPriority\<close> holds one per replica set.
\<close>

record nodeScores =
  ns_idx :: "float64 list"
  ns_m :: "string list f64map"

record NodesPriority =
  np_m :: "string \<rightharpoonup> nodeScores"

definition NewNodesPriority :: NodesPriority where
  "NewNodesPriority = \<lparr>np_m = Map.empty\<rparr>"

definition nodeScores_add :: "nodeScores \<Rightarrow> string \<Rightarrow> float64 \<Rightarrow> nodeScores" where
  "nodeScores_add s node sc =
     (case f64map_get (ns_m s) sc of
        None \<Rightarrow> s\<lparr>ns_idx := ns_idx s @ [sc], ns_m := f64map_put (ns_m s) sc ([] @ [node])\<rparr>
      | Some nodes \<Rightarrow> s\<lparr>ns_m := f64map_put (ns_m s) sc (nodes @ [node])\<rparr>)"

definition NodesPriority_Add :: "NodesPriority \<Rightarrow> string \<Rightarrow> string \<Rightarrow> float64 \<Rightarrow> NodesPriority" where
  "NodesPriority_Add n rs node sc =
     (let s = (case np_m n rs of
                 None \<Rightarrow> \<lparr>ns_idx = [], ns_m = []\<rparr>
               | Some s0 \<Rightarrow> s0)
      in n\<lparr>np_m := (np_m n)(rs \<mapsto> nodeScores_add s node sc)\<rparr>)"

text \<open>
  \<^verbatim>\<open>sort.Float64Slice\<close> orders by \<^verbatim>\<open>x[i] < x[j] || (isNaN(x[i]) && !isNaN(x[j]))\<close>,
  which is \<open>Float64Slice_Less\<close>: NaN comes before every other value.
  \<^verbatim>\<open>sort.Sort(sort.Reverse(sort.Float64Slice(s.idx)))\<close> leaves a permutation of the
  index in which no element is less, in that order, than a later one. \<open>f64_rank\<close>
  places the values on a line in that same order (lemma \<open>Float64Slice_Less_rank\<close>),
  values of one rank are one value, and \<open>sort_desc\<close> is the only list the contract
  of the sort allows (lemma \<open>sort_desc_contract\<close>).

  \<^verbatim>\<open>list\<close> has a value receiver, but the copy's \<^verbatim>\<open>idx\<close> shares its array with
  the stored struct, so the sort is seen there too: \<open>nodeScores_list\<close> answers the
  groups and the struct with the sorted index. A score that the map does not find
  gives the \<^verbatim>\<open>nil\<close> group.
\<close>

definition Float64Slice_Less :: "float64 \<Rightarrow> float64 \<Rightarrow> bool" where
  "Float64Slice_Less a b = (f64_less a b \<or> (a = NaN \<and> b \<noteq> NaN))"

fun f64_rank :: "float64 \<Rightarrow> nat \<times> real" where
  "f64_rank NaN = (0, 0)"
| "f64_rank NegInf = (1, 0)"
| "f64_rank (Fin x) = (2, x)"
| "f64_rank PosInf = (3, 0)"

definition sort_desc :: "float64 list \<Rightarrow> float64 list" where
  "sort_desc xs = rev (sort_key f64_rank xs)"

definition nodeScores_list :: "nodeScores \<Rightarrow> string list list \<times> nodeScores" where
  "nodeScores_list s =
     (let sorted_idx = sort_desc (ns_idx s)
      in (map (\<lambda>sc. case f64map_get (ns_m s) sc of None \<Rightarrow> [] | Some nodes \<Rightarrow> nodes) sorted_idx,
          s\<lparr>ns_idx := sorted_idx\<rparr>))"

definition NodesPriority_RS :: "NodesPriority \<Rightarrow> string \<Rightarrow> string list list \<times> NodesPriority" where
  "NodesPriority_RS n rs =
     (case np_m n rs of
        None \<Rightarrow> ([], n)
      | Some s \<Rightarrow> (case nodeScores_list s of (ret, s') \<Rightarrow> (ret, n\<lparr>np_m := (np_m n)(rs \<mapsto> s')\<rparr>)))"

fun bcpNodesPriority_loop :: "(AgentStat \<Rightarrow> float64) \<Rightarrow> AgentStat list \<Rightarrow> NodesPriority \<Rightarrow> NodesPriority" where
  "bcpNodesPriority_loop f [] scores = scores"
| "bcpNodesPriority_loop f (a # agents) scores =
     (if \<not> AgentStat_OK a then bcpNodesPriority_loop f agents scores
      else bcpNodesPriority_loop f agents (NodesPriority_Add scores (RS a) (Node a) (f a)))"

definition bcpNodesPriority :: "AgentStat list \<Rightarrow> (AgentStat \<Rightarrow> float64) \<Rightarrow> NodesPriority" where
  "bcpNodesPriority agents f = bcpNodesPriority_loop f agents NewNodesPriority"

text \<open>
  The two closures of \<^verbatim>\<open>BcpNodesPriority\<close>: \<open>score_defaults\<close> is the first \<^verbatim>\<open>f\<close>
  (coefficient, primary, hidden, default), \<open>score_config\<close> the one that replaces it
  under \<^verbatim>\<open>cfg.Backup.Priority != nil || len(cfg.Backup.Priority) > 0\<close>, and
  \<open>agentScore\<close> the \<^verbatim>\<open>f\<close> passed on.
\<close>

definition score_defaults :: "float64 gomap \<Rightarrow> AgentStat \<Rightarrow> float64" where
  "score_defaults c a =
     (case map_get c (Node a) of
        Some coeff \<Rightarrow> if c \<noteq> None then f64_mul (Fin defaultScore) coeff
                      else if State a = NodeStatePrimary then Fin (defaultScore / 2)
                      else if Hidden a then Fin (defaultScore * 2)
                      else Fin defaultScore
      | None \<Rightarrow> if State a = NodeStatePrimary then Fin (defaultScore / 2)
                else if Hidden a then Fin (defaultScore * 2)
                else Fin defaultScore)"

definition score_config :: "Config \<Rightarrow> AgentStat \<Rightarrow> float64" where
  "score_config cfg a =
     (case map_get (Backup_Priority cfg) (Node a) of
        None \<Rightarrow> Fin defaultScore
      | Some sc \<Rightarrow> if f64_less sc (Fin 0) then Fin defaultScore else sc)"

definition agentScore :: "float64 gomap \<Rightarrow> Config \<Rightarrow> AgentStat \<Rightarrow> float64" where
  "agentScore c cfg =
     (if Backup_Priority cfg \<noteq> None \<or> map_len (Backup_Priority cfg) > 0
      then score_config cfg
      else score_defaults c)"

definition BcpNodesPriority ::
  "PBM \<Rightarrow> float64 gomap \<Rightarrow> AgentStat list \<Rightarrow> error + NodesPriority" where
  "BcpNodesPriority p c agents =
     (case GetConfig p of
        Inl err \<Rightarrow> Inl (ErrWrap err ''get config'')
      | Inr cfg \<Rightarrow> Inr (bcpNodesPriority agents (agentScore c cfg)))"

section \<open>Notions used to state the properties\<close>

text \<open>
  The running pointer of the walk in \<^verbatim>\<open>chunks\<close> when it reaches chunk \<open>i\<close>: the
  requested start for the first chunk, the previous chunk's end afterwards.
\<close>

definition expected_start :: "Timestamp \<Rightarrow> OplogChunk list \<Rightarrow> nat \<Rightarrow> Timestamp" where
  "expected_start fromTS cs i = (if i = 0 then fromTS else EndTS (cs ! (i - 1)))"

definition file_exists :: "Storage \<Rightarrow> string \<Rightarrow> bool" where
  "file_exists stg f = (case FileStat stg f of Inl _ \<Rightarrow> False | Inr _ \<Rightarrow> True)"

text \<open>
  The lock of a replica set passes the liveness check of \<^verbatim>\<open>converged\<close> when it is
  absent (the read answers \<^verbatim>\<open>mongo.ErrNoDocuments\<close>) or its heartbeat is inside the
  stale frame. A pair of a shard name and a metadata record is quiet when the loop body
  of \<^verbatim>\<open>converged\<close> does not return on it. \<open>reached\<close> counts the records of a
  replica set that report the target status. \<open>reaches_pair\<close>: every pair the loops
  visit before the record \<open>r\<close> of the shard \<open>sh\<close> is quiet, after the shards
  \<open>pre\<close> and the records \<open>rpre\<close>. \<open>keeps_log\<close>: what the other agents do
  between two polls leaves this leader's log of status writes alone.
\<close>

definition lock_alive :: "32 word \<Rightarrow> PBM \<Rightarrow> string \<Rightarrow> Timestamp \<Rightarrow> string \<Rightarrow> bool" where
  "lock_alive sf cn opid clusterTime rsName =
     (case GetLockData cn \<lparr>lh_Type = CmdRestore, lh_OPID = opid, lh_Replset = rsName\<rparr> of
        Inl err \<Rightarrow> errIs err ErrNoDocuments
      | Inr lock \<Rightarrow> \<not> ts_T (Heartbeat lock) + sf < ts_T clusterTime)"

definition quiet :: "32 word \<Rightarrow> PBM \<Rightarrow> string \<Rightarrow> Status \<Rightarrow> Timestamp \<Rightarrow> string \<Rightarrow> RestoreReplset \<Rightarrow> bool" where
  "quiet sf cn opid status clusterTime shRS r =
     (rs_Name r \<noteq> shRS
      \<or> ((status = StatusDone \<or> lock_alive sf cn opid clusterTime (rs_Name r))
          \<and> (rs_Status r = status \<or> rs_Status r \<noteq> StatusError)))"

definition reached :: "Status \<Rightarrow> RestoreReplset list \<Rightarrow> string \<Rightarrow> nat" where
  "reached status rs shRS = length (filter (\<lambda>r. rs_Name r = shRS \<and> rs_Status r = status) rs)"

definition reaches_pair ::
  "32 word \<Rightarrow> PBM \<Rightarrow> string \<Rightarrow> Status \<Rightarrow> Timestamp \<Rightarrow> RestoreMeta
     \<Rightarrow> Shard list \<Rightarrow> RestoreReplset list \<Rightarrow> Shard \<Rightarrow> RestoreReplset \<Rightarrow> bool" where
  "reaches_pair sf cn opid status clusterTime bmeta pre rpre sh r =
     ((\<forall>sh'\<in>set pre. \<forall>r'\<in>set (rm_Replsets bmeta). quiet sf cn opid status clusterTime (sh_RS sh') r')
      \<and> (\<forall>r'\<in>set rpre. quiet sf cn opid status clusterTime (sh_RS sh) r')
      \<and> take (Suc (length rpre)) (rm_Replsets bmeta) = rpre @ [r]
      \<and> rs_Name r = sh_RS sh)"

definition keeps_log :: "poll_event \<Rightarrow> bool" where
  "keeps_log ev = (case ev of Tick others \<Rightarrow> (\<forall>s. write_calls (others s) = write_calls s) | Cancelled \<Rightarrow> True)"

text \<open>
  \<open>added f agents rs\<close> are the calls of \<^verbatim>\<open>Add\<close> that \<open>bcpNodesPriority\<close> makes
  for the replica set \<open>rs\<close>: the node and the score of every healthy agent of that
  replica set, in the order of the agents. \<open>nodes_with ps sc\<close> are the nodes added
  with the score \<open>sc\<close>, in that order, and \<open>numbers\<close> are the scores of a list
  that are not NaN. \<open>adds\<close> replays such calls on one \<^verbatim>\<open>nodeScores\<close>, and
  \<open>ns_inv s ps\<close> says what \<open>s\<close> holds after the calls \<open>ps\<close>: its index lists
  each score that is not NaN once and has one NaN for every call with a NaN score, and
  its map finds, for a score that is not NaN, the nodes added with it.
\<close>

definition added :: "(AgentStat \<Rightarrow> float64) \<Rightarrow> AgentStat list \<Rightarrow> string \<Rightarrow> (string \<times> float64) list" where
  "added f agents rs = map (\<lambda>a. (Node a, f a)) (filter (\<lambda>a. AgentStat_OK a \<and> RS a = rs) agents)"

fun adds :: "nodeScores \<Rightarrow> (string \<times> float64) list \<Rightarrow> nodeScores" where
  "adds s [] = s"
| "adds s (p # ps) = adds (nodeScores_add s (fst p) (snd p)) ps"

definition nodes_with :: "(string \<times> float64) list \<Rightarrow> float64 \<Rightarrow> string list" where
  "nodes_with ps sc = map fst (filter (\<lambda>p. snd p = sc) ps)"

definition numbers :: "float64 list \<Rightarrow> float64 list" where
  "numbers xs = filter (\<lambda>x. x \<noteq> NaN) xs"

definition ns_inv :: "nodeScores \<Rightarrow> (string \<times> float64) list \<Rightarrow> bool" where
  "ns_inv s ps =
     (distinct (numbers (ns_idx s))
      \<and> set (numbers (ns_idx s)) = set (numbers (map snd ps))
      \<and> length (filter (\<lambda>x. x = NaN) (ns_idx s)) = length (filter (\<lambda>p. snd p = NaN) ps)
      \<and> (\<forall>sc. sc \<noteq> NaN \<longrightarrow>
            f64map_get (ns_m s) sc = (if sc \<in> snd ` set ps then Some (nodes_with ps sc) else None)))"

section \<open>Concrete inputs\<close>

text \<open>Small stores, storages and chunk lists on which the properties are evaluated.\<close>

definition mk_ts :: "32 word \<Rightarrow> 32 word \<Rightarrow> Timestamp" where
  "mk_ts t i = \<lparr>ts_T = t, ts_I = i\<rparr>"

definition mk_chunk :: "string \<Rightarrow> 32 word \<Rightarrow> 32 word \<Rightarrow> OplogChunk" where
  "mk_chunk f s e = \<lparr>FName = f, Compression = ''snappy'', StartTS = mk_ts s 0, EndTS = mk_ts e 0\<rparr>"

definition store0 :: PBM where
  "store0 =
     \<lparr>GetConfig = Inr \<lparr>Backup_Priority = None\<rparr>,
      GetRestoreMeta = (\<lambda>_. Inl ErrNotFound),
      ClusterTime = Inr (mk_ts 100 0),
      GetLockData = (\<lambda>_. Inl ErrNoDocuments),
      PITRGetChunksSlice = (\<lambda>_ _ _. Inr []),
      ChangeRestoreState_err = None,
      write_calls = []\<rparr>"

definition store_with_chunks :: "OplogChunk list \<Rightarrow> PBM" where
  "store_with_chunks cs = store0\<lparr>PITRGetChunksSlice := (\<lambda>_ _ _. Inr cs)\<rparr>"

definition storage_without :: "string list \<Rightarrow> Storage" where
  "storage_without missing =
     \<lparr>FileStat = (\<lambda>f. if f \<in> set missing then Inl (ErrNew ''no such file'') else Inr 10),
      SourceReader = (\<lambda>f. if f \<in> set missing then Inl (ErrNew ''no such file'') else Inr [])\<rparr>"

definition mk_rs :: "string \<Rightarrow> Status \<Rightarrow> string \<Rightarrow> RestoreReplset" where
  "mk_rs n st e = \<lparr>rs_Name = n, rs_Status = st, rs_Error = e\<rparr>"

definition mk_meta :: "RestoreReplset list \<Rightarrow> RestoreMeta" where
  "mk_meta replsets =
     \<lparr>rm_Name = ''r1'', rm_Status = ''starting'', rm_Error = [], rm_Hb = mk_ts 90 0,
      rm_Replsets = replsets\<rparr>"

definition no_locks :: "LockHeader \<Rightarrow> error + LockData" where
  "no_locks = (\<lambda>_. Inl ErrNoDocuments)"

definition locks_beat :: "32 word \<Rightarrow> LockHeader \<Rightarrow> error + LockData" where
  "locks_beat hb = (\<lambda>_. Inr \<lparr>Heartbeat = mk_ts hb 0\<rparr>)"

definition restore_store :: "RestoreReplset list \<Rightarrow> (LockHeader \<Rightarrow> error + LockData) \<Rightarrow> PBM" where
  "restore_store replsets locks =
     store0\<lparr>GetRestoreMeta := (\<lambda>n. if n = ''r1'' then Inr (mk_meta replsets) else Inl ErrNotFound),
            GetLockData := locks\<rparr>"

definition mk_sh :: "string \<Rightarrow> Shard" where
  "mk_sh n = \<lparr>sh_RS = n\<rparr>"

definition meta_store :: "RestoreMeta \<Rightarrow> PBM" where
  "meta_store meta = store0\<lparr>GetRestoreMeta := (\<lambda>_. Inr meta)\<rparr>"




definition mk_agent :: "string \<Rightarrow> string \<Rightarrow> NodeState \<Rightarrow> bool \<Rightarrow> bool \<Rightarrow> AgentStat" where
  "mk_agent n rs st hidden healthy = \<lparr>Node = n, RS = rs, State = st, Hidden = hidden, Healthy = healthy\<rparr>"

definition agents5 :: "AgentStat list" where
  "agents5 =
     [mk_agent ''n1'' ''rs0'' NodeStateSecondary False True,
      mk_agent ''n2'' ''rs0'' NodeStatePrimary False True,
      mk_agent ''n3'' ''rs0'' NodeStateSecondary True True,
      mk_agent ''n4'' ''rs0'' NodeStateSecondary False False,
      mk_agent ''n5'' ''rs1'' NodeStateSecondary False True]"

section \<open>Properties of chunks\<close>

lemma chunks_walk_None_iff:
  "chunks_walk stg l cs = None \<longleftrightarrow>
     (\<forall>i<length cs. CompareTimestamp (if i = 0 then l else EndTS (cs ! (i - 1))) (StartTS (cs ! i)) \<noteq> - 1
        \<and> (\<exists>sz. FileStat stg (FName (cs ! i)) = Inr sz))"
proof (induction cs arbitrary: l)
  case Nil
  show ?case by simp
next
  case (Cons c cs)
  show ?case
  proof (cases "CompareTimestamp l (StartTS c) = - 1")
    case True
    then show ?thesis by auto
  next
    case gap: False
    show ?thesis
    proof (cases "FileStat stg (FName c)")
      case (Inl e)
      with gap show ?thesis by auto
    next
      case (Inr sz)
      have "chunks_walk stg l (c # cs) = chunks_walk stg (EndTS c) cs"
        using gap Inr by simp
      also have "\<dots> = None \<longleftrightarrow> (\<forall>i<length cs. CompareTimestamp (if i = 0 then EndTS c else EndTS (cs ! (i - 1))) (StartTS (cs ! i)) \<noteq> - 1
        \<and> (\<exists>sz. FileStat stg (FName (cs ! i)) = Inr sz))"
        by (rule Cons.IH)
      finally show ?thesis
        using gap Inr by (simp add: All_less_Suc2 nth_Cons')
    qed
  qed
qed

lemma chunks_walk_first_violation:
  assumes "i < length cs"
    and "\<forall>j<i. CompareTimestamp (if j = 0 then l else EndTS (cs ! (j - 1))) (StartTS (cs ! j)) \<noteq> - 1
            \<and> (\<exists>sz. FileStat stg (FName (cs ! j)) = Inr sz)"
  shows "chunks_walk stg l cs = chunks_walk stg (if i = 0 then l else EndTS (cs ! (i - 1))) (drop i cs)"
  using assms
proof (induction i arbitrary: l cs)
  case 0
  then show ?case by simp
next
  case (Suc i)
  then obtain c cs' where cs: "cs = c # cs'" by (cases cs) auto
  from Suc.prems(2) have h0: "CompareTimestamp l (StartTS c) \<noteq> - 1" "\<exists>sz. FileStat stg (FName c) = Inr sz"
    using cs by auto
  have "chunks_walk stg l cs = chunks_walk stg (EndTS c) cs'"
    using h0 cs by auto
  also have "\<dots> = chunks_walk stg (if i = 0 then EndTS c else EndTS (cs' ! (i - 1))) (drop i cs')"
  proof (rule Suc.IH)
    show "i < length cs'" using Suc.prems(1) cs by simp
    show "\<forall>j<i. CompareTimestamp (if j = 0 then EndTS c else EndTS (cs' ! (j - 1))) (StartTS (cs' ! j)) \<noteq> - 1 \<and>
          (\<exists>sz. FileStat stg (FName (cs' ! j)) = Inr sz)"
    proof (intro allI impI)
      fix j assume "j < i"
      then have "Suc j < Suc i" by simp
      with Suc.prems(2) show "CompareTimestamp (if j = 0 then EndTS c else EndTS (cs' ! (j - 1))) (StartTS (cs' ! j)) \<noteq> - 1 \<and>
          (\<exists>sz. FileStat stg (FName (cs' ! j)) = Inr sz)"
        using cs by (auto simp: nth_Cons' dest!: spec[where x="Suc j"])
    qed
  qed
  finally show ?case using cs by (simp add: nth_Cons')
qed

lemma chunks_walk_file_exists_iff:
  "chunks_walk stg l cs = None \<longleftrightarrow>
     (\<forall>i<length cs. CompareTimestamp (expected_start l cs i) (StartTS (cs ! i)) \<noteq> - 1)
      \<and> (\<forall>c\<in>set cs. file_exists stg (FName c))"
proof -
  have "(\<exists>sz. FileStat stg f = Inr sz) = file_exists stg f" for f
    by (cases "FileStat stg f") (simp_all add: file_exists_def)
  then show ?thesis
    unfolding chunks_walk_None_iff expected_start_def
    by (auto simp: all_set_conv_all_nth)
qed

lemma chunks_walk_gap_at:
  assumes "i < length cs"
    and "\<forall>j<i. CompareTimestamp (expected_start l cs j) (StartTS (cs ! j)) \<noteq> - 1
            \<and> file_exists stg (FName (cs ! j))"
    and "CompareTimestamp (expected_start l cs i) (StartTS (cs ! i)) = - 1"
  shows "chunks_walk stg l cs =
           Some (ErrNew (''integrity vilolated, expect chunk with start_ts ''
                         @ fmt_ts (expected_start l cs i) @ '', but got '' @ fmt_ts (StartTS (cs ! i))))"
proof -
  have ex: "(\<exists>sz. FileStat stg f = Inr sz) = file_exists stg f" for f
    by (cases "FileStat stg f") (simp_all add: file_exists_def)
  have "chunks_walk stg l cs = chunks_walk stg (expected_start l cs i) (drop i cs)"
    unfolding expected_start_def
    by (rule chunks_walk_first_violation) (use assms in \<open>simp_all add: ex expected_start_def\<close>)
  moreover have "drop i cs = cs ! i # drop (Suc i) cs"
    using assms(1) by (simp add: Cons_nth_drop_Suc)
  ultimately show ?thesis using assms(3) by simp
qed

lemma chunks_walk_missing_at:
  assumes "i < length cs"
    and "\<forall>j<i. CompareTimestamp (expected_start l cs j) (StartTS (cs ! j)) \<noteq> - 1
            \<and> file_exists stg (FName (cs ! j))"
    and "CompareTimestamp (expected_start l cs i) (StartTS (cs ! i)) \<noteq> - 1"
    and "FileStat stg (FName (cs ! i)) = Inl e"
  shows "chunks_walk stg l cs =
           Some (ErrNew (''failed to ensure chunk '' @ fmt_ts (StartTS (cs ! i)) @ ''.''
                         @ fmt_ts (EndTS (cs ! i)) @ '' on the storage, file: '' @ FName (cs ! i)
                         @ '', error: '' @ Error_msg e))"
proof -
  have ex: "(\<exists>sz. FileStat stg f = Inr sz) = file_exists stg f" for f
    by (cases "FileStat stg f") (simp_all add: file_exists_def)
  have "chunks_walk stg l cs = chunks_walk stg (expected_start l cs i) (drop i cs)"
    unfolding expected_start_def
    by (rule chunks_walk_first_violation) (use assms in \<open>simp_all add: ex expected_start_def\<close>)
  moreover have "drop i cs = cs ! i # drop (Suc i) cs"
    using assms(1) by (simp add: Cons_nth_drop_Suc)
  ultimately show ?thesis using assms(3,4) by simp
qed

text \<open>
  Claim C1, as the code has it. When the chunk index cannot be read, \<open>chunks\<close> fails
  with that error wrapped. Otherwise it returns the fetched list if and only if the
  list is not empty, the last chunk does not end before the requested end, no chunk
  starts after the point covered so far (the requested start for the first chunk, the
  previous chunk's end for the others), and every chunk's file is on the storage. A
  chunk that starts before the covered point (an overlap) is accepted. Every failure
  names its cause: the empty list; the last chunk's end when it is before the target;
  for the first chunk in order that fails a check, the expected and the found start at
  a gap, or the chunk, its file and the storage's error when the file is missing.
\<close>

theorem chunks_succeeds_iff_no_gap:
  "(\<forall>err. PITRGetChunksSlice cn (mkRev rsMap rsName) fromTS toTS = Inl err \<longrightarrow>
       chunks mkRev cn stg fromTS toTS rsName rsMap = Inl (ErrWrap err ''get chunks index''))
   \<and> (\<forall>cs. PITRGetChunksSlice cn (mkRev rsMap rsName) fromTS toTS = Inr cs \<longrightarrow>
        (\<forall>r. chunks mkRev cn stg fromTS toTS rsName rsMap = Inr r \<longleftrightarrow>
              r = cs \<and> cs \<noteq> [] \<and> CompareTimestamp (EndTS (last cs)) toTS \<noteq> - 1
              \<and> (\<forall>i<length cs. CompareTimestamp (expected_start fromTS cs i) (StartTS (cs ! i)) \<noteq> - 1)
              \<and> (\<forall>c\<in>set cs. file_exists stg (FName c)))
        \<and> (cs = [] \<longrightarrow>
              chunks mkRev cn stg fromTS toTS rsName rsMap = Inl (ErrNew ''no chunks found''))
        \<and> (cs \<noteq> [] \<and> CompareTimestamp (EndTS (last cs)) toTS = - 1 \<longrightarrow>
              chunks mkRev cn stg fromTS toTS rsName rsMap =
                Inl (ErrNew (''no chunk with the target time, the last chunk ends on ''
                             @ fmt_ts (EndTS (last cs)))))
        \<and> (\<forall>i<length cs.
              CompareTimestamp (EndTS (last cs)) toTS \<noteq> - 1
              \<and> (\<forall>j<i. CompareTimestamp (expected_start fromTS cs j) (StartTS (cs ! j)) \<noteq> - 1
                        \<and> file_exists stg (FName (cs ! j)))
              \<and> CompareTimestamp (expected_start fromTS cs i) (StartTS (cs ! i)) = - 1 \<longrightarrow>
              chunks mkRev cn stg fromTS toTS rsName rsMap =
                Inl (ErrNew (''integrity vilolated, expect chunk with start_ts ''
                             @ fmt_ts (expected_start fromTS cs i) @ '', but got ''
                             @ fmt_ts (StartTS (cs ! i)))))
        \<and> (\<forall>i<length cs. \<forall>e.
              CompareTimestamp (EndTS (last cs)) toTS \<noteq> - 1
              \<and> (\<forall>j<i. CompareTimestamp (expected_start fromTS cs j) (StartTS (cs ! j)) \<noteq> - 1
                        \<and> file_exists stg (FName (cs ! j)))
              \<and> CompareTimestamp (expected_start fromTS cs i) (StartTS (cs ! i)) \<noteq> - 1
              \<and> FileStat stg (FName (cs ! i)) = Inl e \<longrightarrow>
              chunks mkRev cn stg fromTS toTS rsName rsMap =
                Inl (ErrNew (''failed to ensure chunk '' @ fmt_ts (StartTS (cs ! i)) @ ''.''
                             @ fmt_ts (EndTS (cs ! i)) @ '' on the storage, file: ''
                             @ FName (cs ! i) @ '', error: '' @ Error_msg e))))"
proof (intro conjI allI impI)
  fix err
  assume "PITRGetChunksSlice cn (mkRev rsMap rsName) fromTS toTS = Inl err"
  then show "chunks mkRev cn stg fromTS toTS rsName rsMap = Inl (ErrWrap err ''get chunks index'')"
    by (simp add: chunks_def)
next
  fix cs r
  assume f: "PITRGetChunksSlice cn (mkRev rsMap rsName) fromTS toTS = Inr cs"
  show "chunks mkRev cn stg fromTS toTS rsName rsMap = Inr r \<longleftrightarrow>
              r = cs \<and> cs \<noteq> [] \<and> CompareTimestamp (EndTS (last cs)) toTS \<noteq> - 1
              \<and> (\<forall>i<length cs. CompareTimestamp (expected_start fromTS cs i) (StartTS (cs ! i)) \<noteq> - 1)
              \<and> (\<forall>c\<in>set cs. file_exists stg (FName c))"
    using f chunks_walk_file_exists_iff [of stg fromTS cs]
    by (auto simp: chunks_def split: option.splits)
next
  fix cs
  assume f: "PITRGetChunksSlice cn (mkRev rsMap rsName) fromTS toTS = Inr cs" and "cs = []"
  then show "chunks mkRev cn stg fromTS toTS rsName rsMap = Inl (ErrNew ''no chunks found'')"
    by (simp add: chunks_def)
next
  fix cs
  assume f: "PITRGetChunksSlice cn (mkRev rsMap rsName) fromTS toTS = Inr cs"
    and "cs \<noteq> [] \<and> CompareTimestamp (EndTS (last cs)) toTS = - 1"
  then show "chunks mkRev cn stg fromTS toTS rsName rsMap =
                Inl (ErrNew (''no chunk with the target time, the last chunk ends on ''
                             @ fmt_ts (EndTS (last cs))))"
    by (simp add: chunks_def)
next
  fix cs i
  assume f: "PITRGetChunksSlice cn (mkRev rsMap rsName) fromTS toTS = Inr cs"
    and i: "i < length cs"
    and h: "CompareTimestamp (EndTS (last cs)) toTS \<noteq> - 1
              \<and> (\<forall>j<i. CompareTimestamp (expected_start fromTS cs j) (StartTS (cs ! j)) \<noteq> - 1
                        \<and> file_exists stg (FName (cs ! j)))
              \<and> CompareTimestamp (expected_start fromTS cs i) (StartTS (cs ! i)) = - 1"
  have "chunks_walk stg fromTS cs = Some (ErrNew (''integrity vilolated, expect chunk with start_ts ''
                         @ fmt_ts (expected_start fromTS cs i) @ '', but got '' @ fmt_ts (StartTS (cs ! i))))"
    using i h by (intro chunks_walk_gap_at) simp_all
  then show "chunks mkRev cn stg fromTS toTS rsName rsMap =
                Inl (ErrNew (''integrity vilolated, expect chunk with start_ts ''
                             @ fmt_ts (expected_start fromTS cs i) @ '', but got ''
                             @ fmt_ts (StartTS (cs ! i))))"
    using f i h by (auto simp: chunks_def)
next
  fix cs i e
  assume f: "PITRGetChunksSlice cn (mkRev rsMap rsName) fromTS toTS = Inr cs"
    and i: "i < length cs"
    and h: "CompareTimestamp (EndTS (last cs)) toTS \<noteq> - 1
              \<and> (\<forall>j<i. CompareTimestamp (expected_start fromTS cs j) (StartTS (cs ! j)) \<noteq> - 1
                        \<and> file_exists stg (FName (cs ! j)))
              \<and> CompareTimestamp (expected_start fromTS cs i) (StartTS (cs ! i)) \<noteq> - 1
              \<and> FileStat stg (FName (cs ! i)) = Inl e"
  have "chunks_walk stg fromTS cs = Some (ErrNew (''failed to ensure chunk '' @ fmt_ts (StartTS (cs ! i)) @ ''.''
                         @ fmt_ts (EndTS (cs ! i)) @ '' on the storage, file: '' @ FName (cs ! i)
                         @ '', error: '' @ Error_msg e))"
    using i h by (intro chunks_walk_missing_at) simp_all
  then show "chunks mkRev cn stg fromTS toTS rsName rsMap =
                Inl (ErrNew (''failed to ensure chunk '' @ fmt_ts (StartTS (cs ! i)) @ ''.''
                             @ fmt_ts (EndTS (cs ! i)) @ '' on the storage, file: ''
                             @ FName (cs ! i) @ '', error: '' @ Error_msg e))"
    using f i h by (auto simp: chunks_def)
qed

lemmas ex_defs = mk_ts_def mk_chunk_def store0_def store_with_chunks_def storage_without_def
  CompareTimestamp_def expected_start_def file_exists_def

text \<open>
  The checks at work: a contiguous pair is returned; an empty index, a last chunk that
  ends early, a gap, a missing file and an unreadable index each give their own error.
\<close>

theorem chunks_succeeds_iff_no_gap_witness:
  "chunks (\<lambda>m. id) (store_with_chunks [mk_chunk ''a'' 1 5, mk_chunk ''b'' 5 8])
      (storage_without []) (mk_ts 1 0) (mk_ts 8 0) ''rs0'' Map.empty
     = Inr [mk_chunk ''a'' 1 5, mk_chunk ''b'' 5 8]
   \<and> chunks (\<lambda>m. id) (store_with_chunks [])
      (storage_without []) (mk_ts 1 0) (mk_ts 8 0) ''rs0'' Map.empty
     = Inl (ErrNew ''no chunks found'')
   \<and> chunks (\<lambda>m. id) (store_with_chunks [mk_chunk ''a'' 1 5])
      (storage_without []) (mk_ts 1 0) (mk_ts 8 0) ''rs0'' Map.empty
     = Inl (ErrNew ''no chunk with the target time, the last chunk ends on {5 0}'')
   \<and> chunks (\<lambda>m. id) (store_with_chunks [mk_chunk ''a'' 1 5, mk_chunk ''b'' 6 8])
      (storage_without []) (mk_ts 1 0) (mk_ts 8 0) ''rs0'' Map.empty
     = Inl (ErrNew ''integrity vilolated, expect chunk with start_ts {5 0}, but got {6 0}'')
   \<and> chunks (\<lambda>m. id) (store_with_chunks [mk_chunk ''a'' 1 5, mk_chunk ''b'' 5 8])
      (storage_without [''b'']) (mk_ts 1 0) (mk_ts 8 0) ''rs0'' Map.empty
     = Inl (ErrNew ''failed to ensure chunk {5 0}.{8 0} on the storage, file: b, error: no such file'')
   \<and> chunks (\<lambda>m. id) (store0\<lparr>PITRGetChunksSlice := (\<lambda>_ _ _. Inl (ErrNew ''down''))\<rparr>)
      (storage_without []) (mk_ts 1 0) (mk_ts 8 0) ''rs0'' Map.empty
     = Inl (ErrWrap (ErrNew ''down'') ''get chunks index'')"
  using
    chunks_succeeds_iff_no_gap [where cn = "store_with_chunks [mk_chunk ''a'' 1 5, mk_chunk ''b'' 5 8]"
      and mkRev = "\<lambda>m. id" and rsMap = Map.empty and rsName = "''rs0''" and fromTS = "mk_ts 1 0"
      and toTS = "mk_ts 8 0" and stg = "storage_without []"]
    chunks_succeeds_iff_no_gap [where cn = "store_with_chunks []"
      and mkRev = "\<lambda>m. id" and rsMap = Map.empty and rsName = "''rs0''" and fromTS = "mk_ts 1 0"
      and toTS = "mk_ts 8 0" and stg = "storage_without []"]
    chunks_succeeds_iff_no_gap [where cn = "store0\<lparr>PITRGetChunksSlice := (\<lambda>_ _ _. Inl (ErrNew ''down''))\<rparr>"
      and mkRev = "\<lambda>m. id" and rsMap = Map.empty and rsName = "''rs0''" and fromTS = "mk_ts 1 0"
      and toTS = "mk_ts 8 0" and stg = "storage_without []"]
  by (simp add: chunks_def ex_defs fmt_ts_def fmt_d.simps digit_def)

text \<open>
  Claim C1 as stated fails: the validator returns a list whose second chunk starts
  before the first one ends, so success does not need each start to equal the previous
  end.
\<close>

theorem chunks_overlap_accepted_counterexample:
  "chunks (\<lambda>m. id) (store_with_chunks [mk_chunk ''a'' 1 5, mk_chunk ''b'' 3 8])
      (storage_without []) (mk_ts 1 0) (mk_ts 8 0) ''rs0'' Map.empty
     = Inr [mk_chunk ''a'' 1 5, mk_chunk ''b'' 3 8]
   \<and> StartTS (mk_chunk ''b'' 3 8) \<noteq> EndTS (mk_chunk ''a'' 1 5)"
  by (simp add: chunks_def ex_defs)

text \<open>
  The other direction fails as well: a single chunk that is present, ends at the target
  and starts after the requested start is rejected.
\<close>

lemma chunks_rejects_late_first_chunk:
  "chunks (\<lambda>m. id) (store_with_chunks [mk_chunk ''a'' 5 8])
      (storage_without []) (mk_ts 1 0) (mk_ts 8 0) ''rs0'' Map.empty
     = Inl (ErrNew ''integrity vilolated, expect chunk with start_ts {1 0}, but got {5 0}'')"
  by (simp add: chunks_def ex_defs fmt_ts_def fmt_d.simps digit_def)

section \<open>Properties of converged and convergeCluster\<close>

lemmas cex_defs = mk_ts_def store0_def mk_rs_def mk_meta_def no_locks_def locks_beat_def
  restore_store_def mk_sh_def StatusDone_def StatusError_def CmdRestore_def

lemmas converged_defs = converged_def converged_frame_def lockCheck_def ChangeRestoreState_def

lemma lockCheck_None_iff:
  "lockCheck sf cn opid status ct x = None \<longleftrightarrow> status = StatusDone \<or> lock_alive sf cn opid ct x"
  by (auto simp: lockCheck_def lock_alive_def split: sum.splits)

lemma converged_replsets_Inr_iff:
  "converged_replsets sf cn opid status ct bmeta x rs n = Inr n' \<longleftrightarrow>
     (\<forall>r\<in>set rs. quiet sf cn opid status ct x r) \<and> n' = n - int (reached status rs x)"
proof (induction rs arbitrary: n)
  case Nil
  show ?case by (auto simp: reached_def)
next
  case (Cons r rs)
  show ?case
  proof (cases "rs_Name r = x")
    case False
    then show ?thesis using Cons.IH [of n] by (simp add: quiet_def reached_def)
  next
    case name: True
    show ?thesis
    proof (cases "lockCheck sf cn opid status ct (rs_Name r)")
      case (Some e)
      then have "\<not> quiet sf cn opid status ct x r"
        using name lockCheck_None_iff [of sf cn opid status ct "rs_Name r"] by (simp add: quiet_def)
      then show ?thesis using name Some by simp
    next
      case None
      then have alive: "status = StatusDone \<or> lock_alive sf cn opid ct (rs_Name r)"
        by (simp add: lockCheck_None_iff)
      show ?thesis
      proof (cases "rs_Status r = status")
        case True
        then show ?thesis
          using name None alive Cons.IH [of "n - 1"] by (simp add: quiet_def reached_def diff_diff_eq)
      next
        case False
        then show ?thesis
          using name None alive Cons.IH [of n] by (simp add: quiet_def reached_def)
      qed
    qed
  qed
qed

lemma converged_shards_Inr_iff:
  "converged_shards sf cn opid status ct bmeta shs n = Inr n' \<longleftrightarrow>
     (\<forall>sh\<in>set shs. \<forall>r\<in>set (rm_Replsets bmeta). quiet sf cn opid status ct (sh_RS sh) r)
     \<and> n' = n - (\<Sum>sh\<leftarrow>shs. int (reached status (rm_Replsets bmeta) (sh_RS sh)))"
proof (induction shs arbitrary: n)
  case Nil
  show ?case by auto
next
  case (Cons sh shs)
  show ?case
  proof (cases "converged_replsets sf cn opid status ct bmeta (sh_RS sh) (rm_Replsets bmeta) n")
    case (Inl ret)
    then have "\<not> (\<forall>r\<in>set (rm_Replsets bmeta). quiet sf cn opid status ct (sh_RS sh) r)"
      using converged_replsets_Inr_iff [of sf cn opid status ct bmeta "sh_RS sh" "rm_Replsets bmeta" n]
      by auto
    then show ?thesis using Inl by auto
  next
    case (Inr k)
    then have q: "\<forall>r\<in>set (rm_Replsets bmeta). quiet sf cn opid status ct (sh_RS sh) r"
      and k: "k = n - int (reached status (rm_Replsets bmeta) (sh_RS sh))"
      using converged_replsets_Inr_iff [of sf cn opid status ct bmeta "sh_RS sh" "rm_Replsets bmeta" n k]
      by auto
    show ?thesis using Inr q k Cons.IH [of k] by auto
  qed
qed

lemma converged_replsets_append:
  assumes "\<forall>r\<in>set pre. quiet sf cn opid status ct x r"
  shows "converged_replsets sf cn opid status ct bmeta x (pre @ rest) n =
         converged_replsets sf cn opid status ct bmeta x rest (n - int (reached status pre x))"
  using assms
proof (induction pre arbitrary: n)
  case Nil
  show ?case by (simp add: reached_def)
next
  case (Cons r pre)
  then have q: "quiet sf cn opid status ct x r" and qs: "\<forall>r\<in>set pre. quiet sf cn opid status ct x r"
    by auto
  show ?case
  proof (cases "rs_Name r = x")
    case False
    then show ?thesis using Cons.IH [OF qs, of n] by (simp add: reached_def)
  next
    case True
    with q have lc: "lockCheck sf cn opid status ct (rs_Name r) = None"
      and st: "rs_Status r = status \<or> rs_Status r \<noteq> StatusError"
      by (auto simp: quiet_def lockCheck_None_iff)
    show ?thesis
    proof (cases "rs_Status r = status")
      case eq: True
      show ?thesis using True lc eq Cons.IH [OF qs, of "n - 1"] by (simp add: reached_def diff_diff_eq)
    next
      case neq: False
      show ?thesis using True lc neq st Cons.IH [OF qs, of n] by (simp add: reached_def)
    qed
  qed
qed

lemma converged_shards_append:
  assumes "\<forall>sh\<in>set pre. \<forall>r\<in>set (rm_Replsets bmeta). quiet sf cn opid status ct (sh_RS sh) r"
  shows "converged_shards sf cn opid status ct bmeta (pre @ rest) n =
         converged_shards sf cn opid status ct bmeta rest
           (n - (\<Sum>sh\<leftarrow>pre. int (reached status (rm_Replsets bmeta) (sh_RS sh))))"
  using assms
proof (induction pre arbitrary: n)
  case Nil
  show ?case by simp
next
  case (Cons sh pre)
  then have q: "\<forall>r\<in>set (rm_Replsets bmeta). quiet sf cn opid status ct (sh_RS sh) r"
    and qs: "\<forall>sh\<in>set pre. \<forall>r\<in>set (rm_Replsets bmeta). quiet sf cn opid status ct (sh_RS sh) r"
    by auto
  have "converged_replsets sf cn opid status ct bmeta (sh_RS sh) (rm_Replsets bmeta) n
          = Inr (n - int (reached status (rm_Replsets bmeta) (sh_RS sh)))"
    using q by (simp add: converged_replsets_Inr_iff)
  then show ?case using Cons.IH [OF qs] by (simp add: algebra_simps)
qed

lemma converged_shards_first:
  assumes "\<forall>sh'\<in>set pre. \<forall>r'\<in>set (rm_Replsets bmeta). quiet sf cn opid status ct (sh_RS sh') r'"
    and "rm_Replsets bmeta = rpre @ r # rpost"
    and "\<forall>r'\<in>set rpre. quiet sf cn opid status ct (sh_RS sh) r'"
    and "rs_Name r = sh_RS sh"
  shows "lockCheck sf cn opid status ct (rs_Name r) = Some err \<Longrightarrow>
           converged_shards sf cn opid status ct bmeta (pre @ sh # post) n = Inl (err, bmeta)"
    and "lockCheck sf cn opid status ct (rs_Name r) = None \<Longrightarrow> rs_Status r \<noteq> status \<Longrightarrow>
         rs_Status r = StatusError \<Longrightarrow>
           converged_shards sf cn opid status ct bmeta (pre @ sh # post) n =
             Inl (ErrNew (''restore on the shard '' @ rs_Name r @ '' failed with: '' @ rs_Error r),
                  bmeta\<lparr>rm_Status := StatusError, rm_Error := rs_Error r\<rparr>)"
proof -
  let ?n = "n - (\<Sum>sh\<leftarrow>pre. int (reached status (rm_Replsets bmeta) (sh_RS sh)))"
  have 1: "converged_shards sf cn opid status ct bmeta (pre @ sh # post) n =
        converged_shards sf cn opid status ct bmeta (sh # post) ?n"
    by (rule converged_shards_append [OF assms(1)])
  have 2: "converged_replsets sf cn opid status ct bmeta (sh_RS sh) (rm_Replsets bmeta) ?n =
        converged_replsets sf cn opid status ct bmeta (sh_RS sh) (r # rpost) (?n - int (reached status rpre (sh_RS sh)))"
    unfolding assms(2) by (rule converged_replsets_append [OF assms(3)])
  show "lockCheck sf cn opid status ct (rs_Name r) = Some err \<Longrightarrow>
           converged_shards sf cn opid status ct bmeta (pre @ sh # post) n = Inl (err, bmeta)"
    using 1 2 assms(4) by simp
  show "lockCheck sf cn opid status ct (rs_Name r) = None \<Longrightarrow> rs_Status r \<noteq> status \<Longrightarrow>
         rs_Status r = StatusError \<Longrightarrow>
           converged_shards sf cn opid status ct bmeta (pre @ sh # post) n =
             Inl (ErrNew (''restore on the shard '' @ rs_Name r @ '' failed with: '' @ rs_Error r),
                  bmeta\<lparr>rm_Status := StatusError, rm_Error := rs_Error r\<rparr>)"
    using 1 2 assms(4) by simp
qed

lemma unat_stale:
  fixes hb sf ct :: "32 word"
  assumes "unat hb + unat sf < unat ct"
  shows "hb + sf < ct"
proof -
  have "unat ct < 2 ^ LENGTH(32)" by (rule unsigned_less)
  with assms have "unat hb + unat sf < 2 ^ LENGTH(32)" by linarith
  then have "unat (hb + sf) = unat hb + unat sf" by (rule unat_add_lem [THEN iffD1])
  with assms show ?thesis by (simp add: word_less_nat_alt)
qed

lemma converged_frame_early:
  assumes "GetRestoreMeta cn name = Inr bmeta" and "ClusterTime cn = Inr ct"
    and "converged_shards sf cn opid status ct bmeta shards (int (length shards)) = Inl (err, b)"
  shows "converged_frame sf cn name opid shards status = ((False, Some err), Some b, cn)"
  using assms by (simp add: converged_frame_def)

lemma reaches_pairD:
  assumes "reaches_pair sf cn opid status ct bmeta pre rpre sh r"
  shows "\<forall>sh'\<in>set pre. \<forall>r'\<in>set (rm_Replsets bmeta). quiet sf cn opid status ct (sh_RS sh') r'"
    and "rm_Replsets bmeta = rpre @ r # drop (Suc (length rpre)) (rm_Replsets bmeta)"
    and "\<forall>r'\<in>set rpre. quiet sf cn opid status ct (sh_RS sh) r'"
    and "rs_Name r = sh_RS sh"
proof -
  from assms have t: "take (Suc (length rpre)) (rm_Replsets bmeta) = rpre @ [r]"
    by (simp add: reaches_pair_def)
  have "rm_Replsets bmeta = take (Suc (length rpre)) (rm_Replsets bmeta) @ drop (Suc (length rpre)) (rm_Replsets bmeta)"
    by simp
  then show "rm_Replsets bmeta = rpre @ r # drop (Suc (length rpre)) (rm_Replsets bmeta)"
    unfolding t by simp
qed (use assms in \<open>simp_all add: reaches_pair_def\<close>)

lemma converged_stops_at_lock:
  assumes meta: "GetRestoreMeta cn name = Inr bmeta" and ct: "ClusterTime cn = Inr ct"
    and reach: "reaches_pair sf cn opid status ct bmeta pre rpre sh r"
    and lc: "lockCheck sf cn opid status ct (rs_Name r) = Some err"
  shows "converged sf cn name opid (pre @ sh # post) status = ((False, Some err), cn)"
proof -
  note d = reaches_pairD [OF reach]
  have "converged_shards sf cn opid status ct bmeta (pre @ sh # post) (int (length (pre @ sh # post))) =
          Inl (err, bmeta)"
    by (rule converged_shards_first(1) [OF d(1) d(2) d(3) d(4) lc])
  then have "converged_frame sf cn name opid (pre @ sh # post) status = ((False, Some err), Some bmeta, cn)"
    by (rule converged_frame_early [OF meta ct])
  then show ?thesis by (simp add: converged_def)
qed

lemma converged_replsets_locks_irrelevant:
  "converged_replsets sf (cn\<lparr>GetLockData := L\<rparr>) opid StatusDone ct bmeta x rs n =
   converged_replsets sf cn opid StatusDone ct bmeta x rs n"
  by (induction rs arbitrary: n) (simp_all add: lockCheck_def split: sum.splits)

lemma converged_shards_locks_irrelevant:
  "converged_shards sf (cn\<lparr>GetLockData := L\<rparr>) opid StatusDone ct bmeta shs n =
   converged_shards sf cn opid StatusDone ct bmeta shs n"
  by (induction shs arbitrary: n)
    (simp_all add: converged_replsets_locks_irrelevant cong: sum.case_cong)

lemma ChangeRestoreState_fst:
  "fst (ChangeRestoreState cn name s msg) = ChangeRestoreState_err cn"
  by (simp add: ChangeRestoreState_def Let_def split: option.splits)

lemma ChangeRestoreState_write_calls:
  "write_calls (snd (ChangeRestoreState cn name s msg)) = write_calls cn @ [(name, s, msg)]"
  by (simp add: ChangeRestoreState_def Let_def split: option.splits)

lemma converged_fst:
  "fst (converged sf cn name opid shards status) =
     (case GetRestoreMeta cn name of
        Inl err \<Rightarrow> (False, Some (ErrWrap err ''get backup metadata''))
      | Inr bmeta \<Rightarrow>
          (case ClusterTime cn of
             Inl err \<Rightarrow> (False, Some (ErrWrap err ''read cluster time''))
           | Inr ct \<Rightarrow>
               (case converged_shards sf cn opid status ct bmeta shards (int (length shards)) of
                  Inl ret \<Rightarrow> (False, Some (fst ret))
                | Inr n \<Rightarrow>
                    if n = 0
                    then (case ChangeRestoreState_err cn of
                            Some err \<Rightarrow> (False, Some (ErrWrap err (''update backup meta with '' @ status)))
                          | None \<Rightarrow> (True, None))
                    else (False, None))))"
proof -
  have c: "(case ChangeRestoreState cn name status [] of
              (Some err, cn') \<Rightarrow> ((False, Some (ErrWrap err (''update backup meta with '' @ status))), Some b, cn')
            | (None, cn') \<Rightarrow> ((True, None), Some b, cn'))
           = ((case ChangeRestoreState_err cn of
                 Some err \<Rightarrow> (False, Some (ErrWrap err (''update backup meta with '' @ status)))
               | None \<Rightarrow> (True, None)), Some b, snd (ChangeRestoreState cn name status []))" for b
    using ChangeRestoreState_fst [of cn name status "[]"]
    by (cases "ChangeRestoreState cn name status []") (auto split: option.splits)
  show ?thesis
    unfolding converged_def converged_frame_def c
    by (simp split: sum.splits prod.splits)
qed

lemma converged_done_ignores_locks:
  "fst (converged sf (cn\<lparr>GetLockData := L\<rparr>) name opid shards StatusDone) =
   fst (converged sf cn name opid shards StatusDone)"
  by (simp add: converged_fst converged_shards_locks_irrelevant split: sum.splits)

lemma converged_no_error_when_quiet:
  assumes meta: "GetRestoreMeta cn name = Inr bmeta" and ct: "ClusterTime cn = Inr ct"
    and w: "ChangeRestoreState_err cn = None"
    and q: "\<forall>sh\<in>set shards. \<forall>r\<in>set (rm_Replsets bmeta). quiet sf cn opid status ct (sh_RS sh) r"
  shows "snd (fst (converged sf cn name opid shards status)) = None"
proof -
  have "converged_shards sf cn opid status ct bmeta shards (int (length shards)) =
          Inr (int (length shards) - (\<Sum>sh\<leftarrow>shards. int (reached status (rm_Replsets bmeta) (sh_RS sh))))"
    using q by (simp add: converged_shards_Inr_iff)
  then show ?thesis
    using meta ct w by (simp add: converged_fst)
qed

lemma reached_le_1:
  assumes "distinct (map rs_Name rs)"
  shows "reached status rs x \<le> 1"
  using assms
proof (induction rs)
  case Nil
  show ?case by (simp add: reached_def)
next
  case (Cons r rs)
  show ?case
  proof (cases "rs_Name r = x")
    case True
    from Cons.prems have "rs_Name r \<notin> set (map rs_Name rs)" by simp
    with True have "\<forall>r'\<in>set rs. rs_Name r' \<noteq> x" by (metis image_eqI list.set_map)
    then have "filter (\<lambda>r. rs_Name r = x \<and> rs_Status r = status) rs = []"
      by (simp add: filter_empty_conv)
    then show ?thesis by (simp add: reached_def)
  next
    case False
    with Cons show ?thesis by (simp add: reached_def)
  qed
qed

lemma reached_ge_1:
  assumes "r \<in> set rs" and "rs_Name r = x" and "rs_Status r = status"
  shows "1 \<le> reached status rs x"
proof -
  have "r \<in> set (filter (\<lambda>r. rs_Name r = x \<and> rs_Status r = status) rs)"
    using assms by simp
  then have "0 < length (filter (\<lambda>r. rs_Name r = x \<and> rs_Status r = status) rs)"
    by (rule length_pos_if_in_set)
  then show ?thesis by (simp add: reached_def Suc_le_eq)
qed




lemma sum_list_ones:
  assumes "\<forall>x\<in>set xs. f x = (1::nat)"
  shows "(\<Sum>x\<leftarrow>xs. int (f x)) = int (length xs)"
  using assms by (induction xs) auto

lemma converged_all_reached:
  assumes meta: "GetRestoreMeta cn name = Inr bmeta" and ct: "ClusterTime cn = Inr ct"
    and d: "distinct (map rs_Name (rm_Replsets bmeta))"
    and all: "\<forall>sh\<in>set shards. \<exists>r\<in>set (rm_Replsets bmeta). rs_Name r = sh_RS sh \<and> rs_Status r = status"
    and alive: "status = StatusDone \<or> (\<forall>r\<in>set (rm_Replsets bmeta). lock_alive sf cn opid ct (rs_Name r))"
  shows "converged_shards sf cn opid status ct bmeta shards (int (length shards)) = Inr 0"
proof -
  have one: "\<forall>sh\<in>set shards. reached status (rm_Replsets bmeta) (sh_RS sh) = 1"
  proof
    fix sh assume "sh \<in> set shards"
    with all obtain r where "r \<in> set (rm_Replsets bmeta)" "rs_Name r = sh_RS sh" "rs_Status r = status"
      by blast
    then have "1 \<le> reached status (rm_Replsets bmeta) (sh_RS sh)" by (rule reached_ge_1)
    moreover have "reached status (rm_Replsets bmeta) (sh_RS sh) \<le> 1" by (rule reached_le_1 [OF d])
    ultimately show "reached status (rm_Replsets bmeta) (sh_RS sh) = 1" by simp
  qed
  have q: "\<forall>sh\<in>set shards. \<forall>r\<in>set (rm_Replsets bmeta). quiet sf cn opid status ct (sh_RS sh) r"
  proof (intro ballI)
    fix sh r assume sh: "sh \<in> set shards" and r: "r \<in> set (rm_Replsets bmeta)"
    show "quiet sf cn opid status ct (sh_RS sh) r"
    proof (cases "rs_Name r = sh_RS sh")
      case False
      then show ?thesis by (simp add: quiet_def)
    next
      case True
      from all sh obtain r' where r': "r' \<in> set (rm_Replsets bmeta)" "rs_Name r' = sh_RS sh"
        "rs_Status r' = status" by blast
      from d r r' True have "r' = r"
        by (metis distinct_map inj_onD)
      with r' alive r True show ?thesis by (auto simp: quiet_def)
    qed
  qed
  show ?thesis
    using q sum_list_ones [OF one] by (simp add: converged_shards_Inr_iff)
qed

lemma converged_fails_if_not_quiet:
  assumes meta: "GetRestoreMeta cn name = Inr bmeta" and ct: "ClusterTime cn = Inr ct"
    and sh: "sh \<in> set shards" and r: "r \<in> set (rm_Replsets bmeta)"
    and nq: "\<not> quiet sf cn opid status ct (sh_RS sh) r"
  shows "\<exists>e. converged sf cn name opid shards status = ((False, Some e), cn)"
proof (cases "converged_shards sf cn opid status ct bmeta shards (int (length shards))")
  case (Inl ret)
  then show ?thesis using meta ct by (cases ret) (simp add: converged_def converged_frame_def)
next
  case (Inr n)
  then have "quiet sf cn opid status ct (sh_RS sh) r"
    using sh r by (simp add: converged_shards_Inr_iff)
  with nq show ?thesis by simp
qed

lemma unat_fresh:
  fixes hb sf ct :: "32 word"
  assumes "unat ct \<le> unat hb + unat sf" "unat hb + unat sf < 2 ^ 32"
  shows "\<not> hb + sf < ct"
proof -
  have "unat (hb + sf) = unat hb + unat sf"
    using assms(2) by (intro unat_add_lem [THEN iffD1]) simp
  then show ?thesis using assms(1) by (simp add: word_less_nat_alt)
qed

lemma converged_replsets_lock_cong:
  "\<forall>r\<in>set rs. rs_Name r = x \<longrightarrow>
      lockCheck sf cn' opid status ct (rs_Name r) = lockCheck sf cn opid status ct (rs_Name r) \<Longrightarrow>
   converged_replsets sf cn' opid status ct bmeta x rs n
     = converged_replsets sf cn opid status ct bmeta x rs n"
proof (induction rs arbitrary: n)
  case Nil
  show ?case by simp
next
  case (Cons a rs)
  have ih: "converged_replsets sf cn' opid status ct bmeta x rs k
      = converged_replsets sf cn opid status ct bmeta x rs k" for k
    using Cons.prems by (intro Cons.IH) simp
  show ?case
  proof (cases "rs_Name a = x")
    case False
    then show ?thesis by (simp add: ih)
  next
    case True
    with Cons.prems have "lockCheck sf cn' opid status ct (rs_Name a) = lockCheck sf cn opid status ct (rs_Name a)"
      by simp
    then show ?thesis using True by (simp add: ih cong: option.case_cong)
  qed
qed

lemma converged_shards_lock_cong:
  "\<forall>sh\<in>set shs. \<forall>r\<in>set (rm_Replsets bmeta). rs_Name r = sh_RS sh \<longrightarrow>
      lockCheck sf cn' opid status ct (rs_Name r) = lockCheck sf cn opid status ct (rs_Name r) \<Longrightarrow>
   converged_shards sf cn' opid status ct bmeta shs n
     = converged_shards sf cn opid status ct bmeta shs n"
proof (induction shs arbitrary: n)
  case Nil
  show ?case by simp
next
  case (Cons sh shs)
  have "converged_replsets sf cn' opid status ct bmeta (sh_RS sh) (rm_Replsets bmeta) n
      = converged_replsets sf cn opid status ct bmeta (sh_RS sh) (rm_Replsets bmeta) n"
    using Cons.prems by (intro converged_replsets_lock_cong) simp
  moreover have "converged_shards sf cn' opid status ct bmeta shs k
      = converged_shards sf cn opid status ct bmeta shs k" for k
    using Cons.prems by (intro Cons.IH) simp
  ultimately show ?case by (simp cong: sum.case_cong)
qed

lemma converged_lock_cong:
  assumes "\<And>bmeta ct sh r. GetRestoreMeta cn name = Inr bmeta \<Longrightarrow> ClusterTime cn = Inr ct \<Longrightarrow>
             sh \<in> set shards \<Longrightarrow> r \<in> set (rm_Replsets bmeta) \<Longrightarrow> rs_Name r = sh_RS sh \<Longrightarrow>
             lockCheck sf (cn\<lparr>GetLockData := L\<rparr>) opid status ct (rs_Name r)
               = lockCheck sf cn opid status ct (rs_Name r)"
  shows "fst (converged sf (cn\<lparr>GetLockData := L\<rparr>) name opid shards status)
           = fst (converged sf cn name opid shards status)"
proof (cases "GetRestoreMeta cn name")
  case (Inl e)
  then show ?thesis by (simp add: converged_fst)
next
  case m: (Inr bmeta)
  show ?thesis
  proof (cases "ClusterTime cn")
    case (Inl e)
    then show ?thesis using m by (simp add: converged_fst)
  next
    case t: (Inr ct)
    have "converged_shards sf (cn\<lparr>GetLockData := L\<rparr>) opid status ct bmeta shards (int (length shards))
        = converged_shards sf cn opid status ct bmeta shards (int (length shards))"
      using assms [OF m t] by (intro converged_shards_lock_cong) blast
    then show ?thesis using m t by (simp add: converged_fst split: sum.splits)
  qed
qed

text \<open>
  Claim C2, as the code has it. The metadata and the cluster time are read and the
  target status is not "done". When the loops of \<open>converged\<close> reach a shard's record
  without returning and the read of its lock fails with an error other than
  \<^verbatim>\<open>mongo.ErrNoDocuments\<close>, the poll fails with that error wrapped in "unable to
  read lock for shard"; when the lock is there and its heartbeat plus the stale frame is
  below the cluster time, the poll fails with the lost-shard error. Whenever some
  participating shard has a record in the metadata and its lock is unreadable or stale
  in this way, the poll fails with an error and writes nothing. The lock of a replica
  set without a record in the metadata is never examined: whatever the store answers for
  it, the poll returns the same. A missing lock is not a failure in any target status:
  the poll returns what it returns with a lock whose heartbeat is inside the stale frame
  in its place, and when every record's lock is missing or inside the stale frame, no
  record reports the error status and the store accepts the status write, the poll
  returns no error. When the target is "done" the locks do not matter at all.
\<close>

theorem converged_lock_liveness:
  "(GetRestoreMeta cn name = Inr bmeta \<and> ClusterTime cn = Inr ct
      \<and> reaches_pair sf cn opid status ct bmeta pre rpre sh r \<and> status \<noteq> StatusDone
      \<and> GetLockData cn \<lparr>lh_Type = CmdRestore, lh_OPID = opid, lh_Replset = rs_Name r\<rparr> = Inl e
      \<and> \<not> errIs e ErrNoDocuments \<longrightarrow>
    converged sf cn name opid (pre @ sh # post) status =
      ((False, Some (ErrWrap e (''unable to read lock for shard '' @ rs_Name r))), cn))
   \<and> (GetRestoreMeta cn name = Inr bmeta \<and> ClusterTime cn = Inr ct
      \<and> reaches_pair sf cn opid status ct bmeta pre rpre sh r \<and> status \<noteq> StatusDone
      \<and> GetLockData cn \<lparr>lh_Type = CmdRestore, lh_OPID = opid, lh_Replset = rs_Name r\<rparr> = Inr lock
      \<and> unat (ts_T (Heartbeat lock)) + unat sf < unat (ts_T ct) \<longrightarrow>
    converged sf cn name opid (pre @ sh # post) status =
      ((False, Some (ErrNew (''lost shard '' @ rs_Name r @ '', last beat ts: ''
                             @ fmt_d (unat (ts_T (Heartbeat lock)))))), cn))
   \<and> (GetRestoreMeta cn name = Inr bmeta \<and> ClusterTime cn = Inr ct \<and> status \<noteq> StatusDone
      \<and> sh \<in> set shards \<and> r \<in> set (rm_Replsets bmeta) \<and> rs_Name r = sh_RS sh
      \<and> ((GetLockData cn \<lparr>lh_Type = CmdRestore, lh_OPID = opid, lh_Replset = rs_Name r\<rparr> = Inl e
            \<and> \<not> errIs e ErrNoDocuments)
          \<or> (GetLockData cn \<lparr>lh_Type = CmdRestore, lh_OPID = opid, lh_Replset = rs_Name r\<rparr> = Inr lock
            \<and> unat (ts_T (Heartbeat lock)) + unat sf < unat (ts_T ct))) \<longrightarrow>
    (\<exists>err. converged sf cn name opid shards status = ((False, Some err), cn)))
   \<and> (GetRestoreMeta cn name = Inr bmeta \<and> (\<forall>r'\<in>set (rm_Replsets bmeta). rs_Name r' \<noteq> x) \<longrightarrow>
    fst (converged sf
           (cn\<lparr>GetLockData := (GetLockData cn)(\<lparr>lh_Type = CmdRestore, lh_OPID = opid, lh_Replset = x\<rparr> := v)\<rparr>)
           name opid shards status)
      = fst (converged sf cn name opid shards status))
   \<and> (ClusterTime cn = Inr ct
      \<and> GetLockData cn \<lparr>lh_Type = CmdRestore, lh_OPID = opid, lh_Replset = x\<rparr> = Inr lock
      \<and> unat (ts_T ct) \<le> unat (ts_T (Heartbeat lock)) + unat sf
      \<and> unat (ts_T (Heartbeat lock)) + unat sf < 2 ^ 32
      \<and> errIs e ErrNoDocuments \<longrightarrow>
    fst (converged sf
           (cn\<lparr>GetLockData := (GetLockData cn)(\<lparr>lh_Type = CmdRestore, lh_OPID = opid, lh_Replset = x\<rparr> := Inl e)\<rparr>)
           name opid shards status)
      = fst (converged sf cn name opid shards status))
   \<and> (GetRestoreMeta cn name = Inr bmeta \<and> ClusterTime cn = Inr ct \<and> ChangeRestoreState_err cn = None
      \<and> (\<forall>r'\<in>set (rm_Replsets bmeta).
            ((\<exists>e'. GetLockData cn \<lparr>lh_Type = CmdRestore, lh_OPID = opid, lh_Replset = rs_Name r'\<rparr> = Inl e'
                  \<and> errIs e' ErrNoDocuments)
             \<or> (\<exists>l. GetLockData cn \<lparr>lh_Type = CmdRestore, lh_OPID = opid, lh_Replset = rs_Name r'\<rparr> = Inr l
                  \<and> unat (ts_T ct) \<le> unat (ts_T (Heartbeat l)) + unat sf
                  \<and> unat (ts_T (Heartbeat l)) + unat sf < 2 ^ 32))
            \<and> (rs_Status r' = status \<or> rs_Status r' \<noteq> StatusError)) \<longrightarrow>
    snd (fst (converged sf cn name opid shards status)) = None)
   \<and> fst (converged sf (cn\<lparr>GetLockData := L\<rparr>) name opid shards StatusDone)
       = fst (converged sf cn name opid shards StatusDone)"
proof (intro conjI impI)
  assume h: "GetRestoreMeta cn name = Inr bmeta \<and> ClusterTime cn = Inr ct
      \<and> reaches_pair sf cn opid status ct bmeta pre rpre sh r \<and> status \<noteq> StatusDone
      \<and> GetLockData cn \<lparr>lh_Type = CmdRestore, lh_OPID = opid, lh_Replset = rs_Name r\<rparr> = Inl e
      \<and> \<not> errIs e ErrNoDocuments"
  then have "lockCheck sf cn opid status ct (rs_Name r)
               = Some (ErrWrap e (''unable to read lock for shard '' @ rs_Name r))"
    by (simp add: lockCheck_def)
  with h show "converged sf cn name opid (pre @ sh # post) status =
      ((False, Some (ErrWrap e (''unable to read lock for shard '' @ rs_Name r))), cn)"
    by (intro converged_stops_at_lock) auto
next
  assume h: "GetRestoreMeta cn name = Inr bmeta \<and> ClusterTime cn = Inr ct
      \<and> reaches_pair sf cn opid status ct bmeta pre rpre sh r \<and> status \<noteq> StatusDone
      \<and> GetLockData cn \<lparr>lh_Type = CmdRestore, lh_OPID = opid, lh_Replset = rs_Name r\<rparr> = Inr lock
      \<and> unat (ts_T (Heartbeat lock)) + unat sf < unat (ts_T ct)"
  then have "ts_T (Heartbeat lock) + sf < ts_T ct" by (intro unat_stale) simp
  with h have "lockCheck sf cn opid status ct (rs_Name r)
               = Some (ErrNew (''lost shard '' @ rs_Name r @ '', last beat ts: ''
                             @ fmt_d (unat (ts_T (Heartbeat lock)))))"
    by (simp add: lockCheck_def)
  with h show "converged sf cn name opid (pre @ sh # post) status =
      ((False, Some (ErrNew (''lost shard '' @ rs_Name r @ '', last beat ts: ''
                             @ fmt_d (unat (ts_T (Heartbeat lock)))))), cn)"
    by (intro converged_stops_at_lock) auto
next
  assume h: "GetRestoreMeta cn name = Inr bmeta \<and> ClusterTime cn = Inr ct \<and> status \<noteq> StatusDone
      \<and> sh \<in> set shards \<and> r \<in> set (rm_Replsets bmeta) \<and> rs_Name r = sh_RS sh
      \<and> ((GetLockData cn \<lparr>lh_Type = CmdRestore, lh_OPID = opid, lh_Replset = rs_Name r\<rparr> = Inl e
            \<and> \<not> errIs e ErrNoDocuments)
          \<or> (GetLockData cn \<lparr>lh_Type = CmdRestore, lh_OPID = opid, lh_Replset = rs_Name r\<rparr> = Inr lock
            \<and> unat (ts_T (Heartbeat lock)) + unat sf < unat (ts_T ct)))"
  then have m: "GetRestoreMeta cn name = Inr bmeta" and t: "ClusterTime cn = Inr ct"
    and s: "sh \<in> set shards" and x: "r \<in> set (rm_Replsets bmeta)" and nm: "rs_Name r = sh_RS sh"
    and nd: "status \<noteq> StatusDone"
    by blast+
  from h consider
      (unreadable) "GetLockData cn \<lparr>lh_Type = CmdRestore, lh_OPID = opid, lh_Replset = rs_Name r\<rparr> = Inl e"
        "\<not> errIs e ErrNoDocuments"
    | (stale) "GetLockData cn \<lparr>lh_Type = CmdRestore, lh_OPID = opid, lh_Replset = rs_Name r\<rparr> = Inr lock"
        "unat (ts_T (Heartbeat lock)) + unat sf < unat (ts_T ct)"
    by blast
  then have "\<not> lock_alive sf cn opid ct (rs_Name r)"
  proof cases
    case unreadable
    then show ?thesis by (simp add: lock_alive_def)
  next
    case stale
    from stale(2) have "ts_T (Heartbeat lock) + sf < ts_T ct" by (rule unat_stale)
    with stale(1) show ?thesis by (simp add: lock_alive_def)
  qed
  with nd nm have nq: "\<not> quiet sf cn opid status ct (sh_RS sh) r"
    by (simp add: quiet_def)
  show "\<exists>err. converged sf cn name opid shards status = ((False, Some err), cn)"
    by (rule converged_fails_if_not_quiet [OF m t s x nq])
next
  assume h: "GetRestoreMeta cn name = Inr bmeta \<and> (\<forall>r'\<in>set (rm_Replsets bmeta). rs_Name r' \<noteq> x)"
  show "fst (converged sf
           (cn\<lparr>GetLockData := (GetLockData cn)(\<lparr>lh_Type = CmdRestore, lh_OPID = opid, lh_Replset = x\<rparr> := v)\<rparr>)
           name opid shards status)
      = fst (converged sf cn name opid shards status)"
  proof (rule converged_lock_cong)
    fix b t s y
    assume "GetRestoreMeta cn name = Inr b" "y \<in> set (rm_Replsets b)"
    with h have "rs_Name y \<noteq> x" by auto
    then show "lockCheck sf (cn\<lparr>GetLockData := (GetLockData cn)(\<lparr>lh_Type = CmdRestore, lh_OPID = opid, lh_Replset = x\<rparr> := v)\<rparr>)
                 opid status t (rs_Name y)
               = lockCheck sf cn opid status t (rs_Name y)"
      by (simp add: lockCheck_def)
  qed
next
  assume h: "ClusterTime cn = Inr ct
      \<and> GetLockData cn \<lparr>lh_Type = CmdRestore, lh_OPID = opid, lh_Replset = x\<rparr> = Inr lock
      \<and> unat (ts_T ct) \<le> unat (ts_T (Heartbeat lock)) + unat sf
      \<and> unat (ts_T (Heartbeat lock)) + unat sf < 2 ^ 32
      \<and> errIs e ErrNoDocuments"
  then have fresh: "\<not> ts_T (Heartbeat lock) + sf < ts_T ct" by (intro unat_fresh) simp_all
  show "fst (converged sf
           (cn\<lparr>GetLockData := (GetLockData cn)(\<lparr>lh_Type = CmdRestore, lh_OPID = opid, lh_Replset = x\<rparr> := Inl e)\<rparr>)
           name opid shards status)
      = fst (converged sf cn name opid shards status)"
  proof (rule converged_lock_cong)
    fix b t s y
    assume "ClusterTime cn = Inr t"
    with h have "t = ct" by simp
    with h fresh
    show "lockCheck sf (cn\<lparr>GetLockData := (GetLockData cn)(\<lparr>lh_Type = CmdRestore, lh_OPID = opid, lh_Replset = x\<rparr> := Inl e)\<rparr>)
                 opid status t (rs_Name y)
               = lockCheck sf cn opid status t (rs_Name y)"
      by (simp add: lockCheck_def)
  qed
next
  assume h: "GetRestoreMeta cn name = Inr bmeta \<and> ClusterTime cn = Inr ct \<and> ChangeRestoreState_err cn = None
      \<and> (\<forall>r'\<in>set (rm_Replsets bmeta).
            ((\<exists>e'. GetLockData cn \<lparr>lh_Type = CmdRestore, lh_OPID = opid, lh_Replset = rs_Name r'\<rparr> = Inl e'
                  \<and> errIs e' ErrNoDocuments)
             \<or> (\<exists>l. GetLockData cn \<lparr>lh_Type = CmdRestore, lh_OPID = opid, lh_Replset = rs_Name r'\<rparr> = Inr l
                  \<and> unat (ts_T ct) \<le> unat (ts_T (Heartbeat l)) + unat sf
                  \<and> unat (ts_T (Heartbeat l)) + unat sf < 2 ^ 32))
            \<and> (rs_Status r' = status \<or> rs_Status r' \<noteq> StatusError))"
  have "\<forall>sh\<in>set shards. \<forall>r\<in>set (rm_Replsets bmeta). quiet sf cn opid status ct (sh_RS sh) r"
  proof (intro ballI)
    fix s y assume "s \<in> set shards" and y: "y \<in> set (rm_Replsets bmeta)"
    from h y have "lock_alive sf cn opid ct (rs_Name y)"
      using unat_fresh [of "ts_T ct" _ sf] by (fastforce simp: lock_alive_def)
    moreover from h y have "rs_Status y = status \<or> rs_Status y \<noteq> StatusError" by blast
    ultimately show "quiet sf cn opid status ct (sh_RS s) y" by (simp add: quiet_def)
  qed
  with h show "snd (fst (converged sf cn name opid shards status)) = None"
    by (intro converged_no_error_when_quiet) auto
next
  show "fst (converged sf (cn\<lparr>GetLockData := L\<rparr>) name opid shards StatusDone)
       = fst (converged sf cn name opid shards StatusDone)"
    by (rule converged_done_ignores_locks)
qed

text \<open>
  Stale frame 30 and cluster time 100. One shard \<open>rs0\<close> with a record: an unreadable
  lock, then a heartbeat at 10. No record at all and a heartbeat at 10: the poll is not
  yet converged and reports no error. Two shards in the target status, the lock of
  \<open>rs0\<close> missing beside the live lock of \<open>rs1\<close>: the poll converges. A missing
  lock with the record not yet in the target status; and the target "done" with a stale
  lock.
\<close>

theorem converged_lock_liveness_witness:
  "converged 30 (restore_store [mk_rs ''rs0'' ''running'' []] (\<lambda>_. Inl (ErrNew ''db down''))) ''r1'' ''op1''
      ([] @ mk_sh ''rs0'' # []) ''running''
     = ((False, Some (ErrWrap (ErrNew ''db down'') ''unable to read lock for shard rs0'')),
        restore_store [mk_rs ''rs0'' ''running'' []] (\<lambda>_. Inl (ErrNew ''db down'')))
   \<and> converged 30 (restore_store [mk_rs ''rs0'' ''running'' []] (locks_beat 10)) ''r1'' ''op1''
      ([] @ mk_sh ''rs0'' # []) ''running''
     = ((False, Some (ErrNew ''lost shard rs0, last beat ts: 10'')),
        restore_store [mk_rs ''rs0'' ''running'' []] (locks_beat 10))
   \<and> fst (converged 30
        ((restore_store [] no_locks)
           \<lparr>GetLockData := (GetLockData (restore_store [] no_locks))
              (\<lparr>lh_Type = CmdRestore, lh_OPID = ''op1'', lh_Replset = ''rs0''\<rparr>
                 := Inr \<lparr>Heartbeat = mk_ts 10 0\<rparr>)\<rparr>)
        ''r1'' ''op1'' [mk_sh ''rs0''] ''running'') = (False, None)
   \<and> fst (converged 30
        ((restore_store [mk_rs ''rs0'' ''running'' [], mk_rs ''rs1'' ''running'' []] (locks_beat 90))
           \<lparr>GetLockData := (GetLockData
                (restore_store [mk_rs ''rs0'' ''running'' [], mk_rs ''rs1'' ''running'' []] (locks_beat 90)))
              (\<lparr>lh_Type = CmdRestore, lh_OPID = ''op1'', lh_Replset = ''rs0''\<rparr> := Inl ErrNoDocuments)\<rparr>)
        ''r1'' ''op1'' [mk_sh ''rs0'', mk_sh ''rs1''] ''running'') = (True, None)
   \<and> snd (fst (converged 30 (restore_store [mk_rs ''rs0'' ''starting'' []] no_locks) ''r1'' ''op1''
      [mk_sh ''rs0''] ''running'')) = None
   \<and> fst (converged 30 ((restore_store [mk_rs ''rs0'' ''done'' []] no_locks)\<lparr>GetLockData := locks_beat 10\<rparr>)
          ''r1'' ''op1'' [mk_sh ''rs0''] StatusDone) = (True, None)"
  using
    converged_lock_liveness [where sf = 30
      and cn = "restore_store [mk_rs ''rs0'' ''running'' []] (\<lambda>_. Inl (ErrNew ''db down''))"
      and name = "''r1''" and opid = "''op1''" and status = "''running''"
      and bmeta = "mk_meta [mk_rs ''rs0'' ''running'' []]" and ct = "mk_ts 100 0"
      and pre = "[]" and rpre = "[]" and sh = "mk_sh ''rs0''"
      and r = "mk_rs ''rs0'' ''running'' []" and post = "[]" and e = "ErrNew ''db down''"
      and shards = "[mk_sh ''rs0'']"]
    converged_lock_liveness [where sf = 30
      and cn = "restore_store [mk_rs ''rs0'' ''running'' []] (locks_beat 10)"
      and name = "''r1''" and opid = "''op1''" and status = "''running''"
      and bmeta = "mk_meta [mk_rs ''rs0'' ''running'' []]" and ct = "mk_ts 100 0"
      and pre = "[]" and rpre = "[]" and sh = "mk_sh ''rs0''"
      and r = "mk_rs ''rs0'' ''running'' []" and post = "[]"
      and lock = "\<lparr>Heartbeat = mk_ts 10 0\<rparr>" and shards = "[mk_sh ''rs0'']"]
    converged_lock_liveness [where sf = 30
      and cn = "restore_store [] no_locks"
      and name = "''r1''" and opid = "''op1''" and status = "''running''"
      and bmeta = "mk_meta []" and x = "''rs0''" and v = "Inr \<lparr>Heartbeat = mk_ts 10 0\<rparr>"
      and shards = "[mk_sh ''rs0'']"]
    converged_lock_liveness [where sf = 30
      and cn = "restore_store [mk_rs ''rs0'' ''running'' [], mk_rs ''rs1'' ''running'' []] (locks_beat 90)"
      and name = "''r1''" and opid = "''op1''" and status = "''running''"
      and ct = "mk_ts 100 0" and x = "''rs0''" and lock = "\<lparr>Heartbeat = mk_ts 90 0\<rparr>"
      and e = ErrNoDocuments and shards = "[mk_sh ''rs0'', mk_sh ''rs1'']"]
    converged_lock_liveness [where sf = 30
      and cn = "restore_store [mk_rs ''rs0'' ''starting'' []] no_locks"
      and name = "''r1''" and opid = "''op1''" and status = "''running''"
      and bmeta = "mk_meta [mk_rs ''rs0'' ''starting'' []]" and ct = "mk_ts 100 0"
      and shards = "[mk_sh ''rs0'']"]
    converged_lock_liveness [where sf = 30
      and cn = "restore_store [mk_rs ''rs0'' ''done'' []] no_locks"
      and name = "''r1''" and opid = "''op1''" and L = "locks_beat 10"
      and shards = "[mk_sh ''rs0'']"]
  by (simp add: cex_defs converged_defs reaches_pair_def lock_alive_def fmt_d.simps digit_def)

text \<open>
  Claim C2 as stated fails: the target is "running", the lock record of \<open>rs0\<close> is
  missing, and the poll converges instead of failing. And with the heartbeat of
  \<open>rs0\<close> at 10 against the cluster time 100 but no record of \<open>rs0\<close> in the
  metadata, the poll does not fail either: it answers "not yet".
\<close>

theorem converged_missing_lock_counterexample:
  "converged 30 (restore_store [mk_rs ''rs0'' ''running'' []] no_locks) ''r1'' ''op1''
      [mk_sh ''rs0''] ''running'' =
     ((True, None), snd (ChangeRestoreState (restore_store [mk_rs ''rs0'' ''running'' []] no_locks) ''r1'' ''running'' []))
   \<and> GetLockData (restore_store [mk_rs ''rs0'' ''running'' []] no_locks)
        \<lparr>lh_Type = CmdRestore, lh_OPID = ''op1'', lh_Replset = ''rs0''\<rparr> = Inl ErrNoDocuments
   \<and> ''running'' \<noteq> StatusDone
   \<and> converged 30 (restore_store [] (locks_beat 10)) ''r1'' ''op1'' [mk_sh ''rs0''] ''running''
       = ((False, None), restore_store [] (locks_beat 10))
   \<and> GetLockData (restore_store [] (locks_beat 10))
        \<lparr>lh_Type = CmdRestore, lh_OPID = ''op1'', lh_Replset = ''rs0''\<rparr> = Inr \<lparr>Heartbeat = mk_ts 10 0\<rparr>
   \<and> ClusterTime (restore_store [] (locks_beat 10)) = Inr (mk_ts 100 0)"
  by (simp add: converged_defs cex_defs)

text \<open>
  Claim C3, as the code has it. When the loops of \<open>converged\<close> reach a shard's
  record without returning, the record's lock passes the liveness check (or the target
  is "done") and the record reports the error status while the target is another
  status, this poll returns \<^verbatim>\<open>(false, err)\<close>; the error's message contains the
  shard's name and the shard's error message, and the call does not write to the store.
  The liveness check of the same record and every earlier pair come first.
\<close>

theorem converged_shard_error_first:
  assumes meta: "GetRestoreMeta cn name = Inr bmeta" and ct: "ClusterTime cn = Inr ct"
    and reach: "reaches_pair sf cn opid status ct bmeta pre rpre sh r"
    and alive: "status = StatusDone \<or> lock_alive sf cn opid ct (rs_Name r)"
    and err: "rs_Status r = StatusError" and target: "status \<noteq> StatusError"
  shows "converged sf cn name opid (pre @ sh # post) status =
           ((False, Some (ErrNew (''restore on the shard '' @ rs_Name r @ '' failed with: '' @ rs_Error r))), cn)
         \<and> sublist (rs_Name r)
              (Error_msg (ErrNew (''restore on the shard '' @ rs_Name r @ '' failed with: '' @ rs_Error r)))
         \<and> sublist (rs_Error r)
              (Error_msg (ErrNew (''restore on the shard '' @ rs_Name r @ '' failed with: '' @ rs_Error r)))"
proof -
  note d = reaches_pairD [OF reach]
  have lc: "lockCheck sf cn opid status ct (rs_Name r) = None"
    using alive by (simp add: lockCheck_None_iff)
  have ne: "rs_Status r \<noteq> status" using err target by simp
  have "converged_shards sf cn opid status ct bmeta (pre @ sh # post) (int (length (pre @ sh # post))) =
          Inl (ErrNew (''restore on the shard '' @ rs_Name r @ '' failed with: '' @ rs_Error r),
               bmeta\<lparr>rm_Status := StatusError, rm_Error := rs_Error r\<rparr>)"
    by (rule converged_shards_first(2) [OF d(1) d(2) d(3) d(4) lc ne err])
  then have "converged_frame sf cn name opid (pre @ sh # post) status =
      ((False, Some (ErrNew (''restore on the shard '' @ rs_Name r @ '' failed with: '' @ rs_Error r))),
       Some (bmeta\<lparr>rm_Status := StatusError, rm_Error := rs_Error r\<rparr>), cn)"
    by (rule converged_frame_early [OF meta ct])
  then have 1: "converged sf cn name opid (pre @ sh # post) status =
           ((False, Some (ErrNew (''restore on the shard '' @ rs_Name r @ '' failed with: '' @ rs_Error r))), cn)"
    by (simp add: converged_def)
  have 2: "sublist (rs_Name r) (''restore on the shard '' @ rs_Name r @ '' failed with: '' @ rs_Error r)"
    by (rule sublist_appendI)
  have 3: "sublist (rs_Error r) ((''restore on the shard '' @ rs_Name r @ '' failed with: '') @ rs_Error r @ [])"
    by (rule sublist_appendI)
  show ?thesis using 1 2 3 by simp
qed

text \<open>
  The shard \<open>rs1\<close> in status "error" with the message "disk full", its lock alive,
  the target "running", alone and after a shard that has reached the target: the poll
  fails with both in the message.
\<close>

theorem converged_shard_error_first_witness:
  "converged 30 (restore_store [mk_rs ''rs1'' ''error'' ''disk full''] (locks_beat 90)) ''r1'' ''op1''
      ([] @ mk_sh ''rs1'' # []) ''running'' =
     ((False, Some (ErrNew ''restore on the shard rs1 failed with: disk full'')),
      restore_store [mk_rs ''rs1'' ''error'' ''disk full''] (locks_beat 90))
   \<and> converged 30
        (restore_store [mk_rs ''rs0'' ''running'' [], mk_rs ''rs1'' ''error'' ''disk full''] (locks_beat 90))
        ''r1'' ''op1'' ([mk_sh ''rs0''] @ mk_sh ''rs1'' # [mk_sh ''rs2'']) ''running'' =
     ((False, Some (ErrNew ''restore on the shard rs1 failed with: disk full'')),
      restore_store [mk_rs ''rs0'' ''running'' [], mk_rs ''rs1'' ''error'' ''disk full''] (locks_beat 90))
   \<and> sublist ''rs1'' ''restore on the shard rs1 failed with: disk full''
   \<and> sublist ''disk full'' ''restore on the shard rs1 failed with: disk full''"
  using
    converged_shard_error_first [where sf = 30
      and cn = "restore_store [mk_rs ''rs1'' ''error'' ''disk full''] (locks_beat 90)"
      and name = "''r1''" and opid = "''op1''" and status = "''running''"
      and bmeta = "mk_meta [mk_rs ''rs1'' ''error'' ''disk full'']" and ct = "mk_ts 100 0"
      and pre = "[]" and rpre = "[]" and sh = "mk_sh ''rs1''"
      and r = "mk_rs ''rs1'' ''error'' ''disk full''" and post = "[]"]
    converged_shard_error_first [where sf = 30
      and cn = "restore_store [mk_rs ''rs0'' ''running'' [], mk_rs ''rs1'' ''error'' ''disk full'']
                  (locks_beat 90)"
      and name = "''r1''" and opid = "''op1''" and status = "''running''"
      and bmeta = "mk_meta [mk_rs ''rs0'' ''running'' [], mk_rs ''rs1'' ''error'' ''disk full'']"
      and ct = "mk_ts 100 0"
      and pre = "[mk_sh ''rs0'']" and rpre = "[mk_rs ''rs0'' ''running'' []]" and sh = "mk_sh ''rs1''"
      and r = "mk_rs ''rs1'' ''error'' ''disk full''" and post = "[mk_sh ''rs2'']"]
  by (simp add: cex_defs reaches_pair_def quiet_def lock_alive_def)

text \<open>
  Claim C3 as stated fails: the same shard with a stale heartbeat (10 + 30 < 100) makes
  the poll fail with the lost-shard error, which does not carry "disk full"; the
  liveness check comes before the status check.
\<close>

theorem converged_stale_before_error_counterexample:
  "converged 30 (restore_store [mk_rs ''rs1'' ''error'' ''disk full''] (locks_beat 10)) ''r1'' ''op1''
      [mk_sh ''rs1''] ''running'' =
     ((False, Some (ErrNew ''lost shard rs1, last beat ts: 10'')),
      restore_store [mk_rs ''rs1'' ''error'' ''disk full''] (locks_beat 10))
   \<and> \<not> sublist ''disk full'' (Error_msg (ErrNew ''lost shard rs1, last beat ts: 10''))"
  apply (simp add: converged_defs cex_defs fmt_d.simps digit_def)
  apply (simp add: sublist_code)
  done

lemma converged_commit:
  assumes meta: "GetRestoreMeta cn name = Inr bmeta" and ct: "ClusterTime cn = Inr ct"
    and w: "ChangeRestoreState_err cn = None"
    and z: "converged_shards sf cn opid status ct bmeta shards (int (length shards)) = Inr 0"
  shows "converged sf cn name opid shards status =
           ((True, None),
            cn\<lparr>write_calls := write_calls cn @ [(name, status, [])],
               GetRestoreMeta := (GetRestoreMeta cn)(name := Inr (bmeta\<lparr>rm_Status := status, rm_Error := []\<rparr>))\<rparr>)"
  using assms by (simp add: converged_def converged_frame_def ChangeRestoreState_def)

lemma converged_outcomes:
  "(snd (converged sf cn name opid shards status) = cn
      \<and> (fst (converged sf cn name opid shards status) = (False, None)
          \<or> (\<exists>e. fst (converged sf cn name opid shards status) = (False, Some e))))
   \<or> (snd (converged sf cn name opid shards status) = snd (ChangeRestoreState cn name status [])
      \<and> (fst (converged sf cn name opid shards status) = (True, None)
          \<or> (\<exists>e. fst (converged sf cn name opid shards status) = (False, Some e)))
      \<and> (\<exists>bmeta ct. GetRestoreMeta cn name = Inr bmeta \<and> ClusterTime cn = Inr ct
            \<and> converged_shards sf cn opid status ct bmeta shards (int (length shards)) = Inr 0))"
  by (auto simp: converged_def converged_frame_def split: sum.splits prod.splits option.splits)

lemma convergeCluster_at_most_one_commit:
  assumes "\<forall>ev\<in>set evs. keeps_log ev"
  shows "write_calls (snd (convergeCluster sf cn name opid shards status evs)) = write_calls cn
       \<or> write_calls (snd (convergeCluster sf cn name opid shards status evs))
            = write_calls cn @ [(name, status, [])]"
  using assms
proof (induction evs arbitrary: cn)
  case Nil
  show ?case by simp
next
  case (Cons ev evs)
  show ?case
  proof (cases ev)
    case Cancelled
    then show ?thesis by simp
  next
    case (Tick others)
    with Cons.prems have keep: "write_calls (others cn) = write_calls cn"
      by (simp add: keeps_log_def)
    obtain ok err cn' where c: "converged sf (others cn) name opid shards status = ((ok, err), cn')"
      by (metis surj_pair)
    from converged_outcomes [of sf "others cn" name opid shards status] c
    consider (same) "cn' = others cn" "(ok, err) = (False, None) \<or> (\<exists>e. (ok, err) = (False, Some e))"
      | (wrote) "cn' = snd (ChangeRestoreState (others cn) name status [])"
                "(ok, err) = (True, None) \<or> (\<exists>e. (ok, err) = (False, Some e))"
      by auto
    then show ?thesis
    proof cases
      case same
      show ?thesis
      proof (cases err)
        case None
        with same have "ok = False" by auto
        with None c Tick same keep Cons.IH [of "others cn"] Cons.prems show ?thesis by simp
      next
        case (Some e)
        with c Tick same keep show ?thesis by simp
      qed
    next
      case wrote
      have "write_calls cn' = write_calls cn @ [(name, status, [])]"
        using wrote(1) keep by (simp add: ChangeRestoreState_write_calls)
      with wrote(2) c Tick show ?thesis by auto
    qed
  qed
qed

text \<open>
  Claim C4, as the code has it. The metadata has one record per replica set name, every
  participating shard's record reports the target status, the locks pass and the store
  accepts the write. Then \<open>converged\<close> returns true, issues exactly one global status
  write and leaves the record with the target status; \<open>convergeCluster\<close> returns
  \<^verbatim>\<open>nil\<close> at that poll; one run of \<open>convergeCluster\<close> issues at most one such write
  when nobody else touches the log; and a second call of \<open>converged\<close> for the same
  target on the store the first call left returns true again and issues the same write
  a second time.
\<close>

theorem converged_commit_is_repeated:
  assumes meta: "GetRestoreMeta cn name = Inr bmeta" and ct: "ClusterTime cn = Inr ct"
    and w: "ChangeRestoreState_err cn = None"
    and d: "distinct (map rs_Name (rm_Replsets bmeta))"
    and all: "\<forall>sh\<in>set shards. \<exists>r\<in>set (rm_Replsets bmeta). rs_Name r = sh_RS sh \<and> rs_Status r = status"
    and alive: "status = StatusDone \<or> (\<forall>r\<in>set (rm_Replsets bmeta). lock_alive sf cn opid ct (rs_Name r))"
  shows "fst (converged sf cn name opid shards status) = (True, None)
     \<and> write_calls (snd (converged sf cn name opid shards status)) = write_calls cn @ [(name, status, [])]
     \<and> GetRestoreMeta (snd (converged sf cn name opid shards status)) name
          = Inr (bmeta\<lparr>rm_Status := status, rm_Error := []\<rparr>)
     \<and> convergeCluster sf cn0 name opid shards status (Tick (\<lambda>_. cn) # evs)
          = (Some None, snd (converged sf cn name opid shards status))
     \<and> ((\<forall>ev\<in>set evs'. keeps_log ev) \<longrightarrow>
          write_calls (snd (convergeCluster sf cn name opid shards status evs')) = write_calls cn
          \<or> write_calls (snd (convergeCluster sf cn name opid shards status evs'))
               = write_calls cn @ [(name, status, [])])
     \<and> fst (converged sf (snd (converged sf cn name opid shards status)) name opid shards status)
          = (True, None)
     \<and> write_calls (snd (converged sf (snd (converged sf cn name opid shards status)) name opid shards status))
          = write_calls cn @ [(name, status, []), (name, status, [])]"
proof -
  let ?cn1 = "cn\<lparr>write_calls := write_calls cn @ [(name, status, [])],
               GetRestoreMeta := (GetRestoreMeta cn)(name := Inr (bmeta\<lparr>rm_Status := status, rm_Error := []\<rparr>))\<rparr>"
  let ?b1 = "bmeta\<lparr>rm_Status := status, rm_Error := []\<rparr>"
  have z: "converged_shards sf cn opid status ct bmeta shards (int (length shards)) = Inr 0"
    by (rule converged_all_reached [OF meta ct d all alive])
  have first: "converged sf cn name opid shards status = ((True, None), ?cn1)"
    by (rule converged_commit [OF meta ct w z])
  have meta1: "GetRestoreMeta ?cn1 name = Inr ?b1" by simp
  have ct1: "ClusterTime ?cn1 = Inr ct" using ct by simp
  have w1: "ChangeRestoreState_err ?cn1 = None" using w by simp
  have d1: "distinct (map rs_Name (rm_Replsets ?b1))" using d by simp
  have all1: "\<forall>sh\<in>set shards. \<exists>r\<in>set (rm_Replsets ?b1). rs_Name r = sh_RS sh \<and> rs_Status r = status"
    using all by simp
  have alive1: "status = StatusDone \<or> (\<forall>r\<in>set (rm_Replsets ?b1). lock_alive sf ?cn1 opid ct (rs_Name r))"
    using alive by (simp add: lock_alive_def)
  have z1: "converged_shards sf ?cn1 opid status ct ?b1 shards (int (length shards)) = Inr 0"
    by (rule converged_all_reached [OF meta1 ct1 d1 all1 alive1])
  have second: "converged sf ?cn1 name opid shards status =
      ((True, None),
       ?cn1\<lparr>write_calls := write_calls ?cn1 @ [(name, status, [])],
            GetRestoreMeta := (GetRestoreMeta ?cn1)(name := Inr (?b1\<lparr>rm_Status := status, rm_Error := []\<rparr>))\<rparr>)"
    by (rule converged_commit [OF meta1 ct1 w1 z1])
  have loop: "convergeCluster sf cn0 name opid shards status (Tick (\<lambda>_. cn) # evs)
          = (Some None, snd (converged sf cn name opid shards status))"
    using first by simp
  have once: "(\<forall>ev\<in>set evs'. keeps_log ev) \<longrightarrow>
          write_calls (snd (convergeCluster sf cn name opid shards status evs')) = write_calls cn
          \<or> write_calls (snd (convergeCluster sf cn name opid shards status evs'))
               = write_calls cn @ [(name, status, [])]"
    using convergeCluster_at_most_one_commit by blast
  have snd1: "snd (converged sf cn name opid shards status) = ?cn1"
    using first by simp
  have c1: "fst (converged sf cn name opid shards status) = (True, None)"
    using first by simp
  have c2: "write_calls (snd (converged sf cn name opid shards status)) = write_calls cn @ [(name, status, [])]"
    unfolding snd1 by simp
  have c3: "GetRestoreMeta (snd (converged sf cn name opid shards status)) name = Inr ?b1"
    unfolding snd1 by simp
  have c6: "fst (converged sf (snd (converged sf cn name opid shards status)) name opid shards status)
          = (True, None)"
    unfolding snd1 second by simp
  have c7: "write_calls (snd (converged sf (snd (converged sf cn name opid shards status)) name opid shards status))
          = write_calls cn @ [(name, status, []), (name, status, [])]"
    unfolding snd1 second by simp
  show ?thesis
    using c1 c2 c3 loop once c6 c7 by (intro conjI)
qed

text \<open>
  Two shards that both report "running", with live locks: one write after the first
  poll, two after the second.
\<close>

theorem converged_commit_is_repeated_witness:
  "fst (converged 30 (restore_store [mk_rs ''rs0'' ''running'' [], mk_rs ''rs1'' ''running'' []] (locks_beat 90))
          ''r1'' ''op1'' [mk_sh ''rs0'', mk_sh ''rs1''] ''running'') = (True, None)
   \<and> write_calls (snd (converged 30
          (restore_store [mk_rs ''rs0'' ''running'' [], mk_rs ''rs1'' ''running'' []] (locks_beat 90))
          ''r1'' ''op1'' [mk_sh ''rs0'', mk_sh ''rs1''] ''running'')) = [(''r1'', ''running'', [])]
   \<and> write_calls (snd (converged 30 (snd (converged 30
          (restore_store [mk_rs ''rs0'' ''running'' [], mk_rs ''rs1'' ''running'' []] (locks_beat 90))
          ''r1'' ''op1'' [mk_sh ''rs0'', mk_sh ''rs1''] ''running''))
          ''r1'' ''op1'' [mk_sh ''rs0'', mk_sh ''rs1''] ''running''))
       = [(''r1'', ''running'', []), (''r1'', ''running'', [])]
   \<and> convergeCluster 30
        (restore_store [mk_rs ''rs0'' ''running'' [], mk_rs ''rs1'' ''running'' []] (locks_beat 90))
        ''r1'' ''op1'' [mk_sh ''rs0'', mk_sh ''rs1''] ''running'' [Tick (\<lambda>s. s), Tick (\<lambda>s. s)]
       = (Some None,
          snd (converged 30
            (restore_store [mk_rs ''rs0'' ''running'' [], mk_rs ''rs1'' ''running'' []] (locks_beat 90))
            ''r1'' ''op1'' [mk_sh ''rs0'', mk_sh ''rs1''] ''running''))"
  using converged_commit_is_repeated [where sf = 30
      and cn = "restore_store [mk_rs ''rs0'' ''running'' [], mk_rs ''rs1'' ''running'' []] (locks_beat 90)"
      and name = "''r1''" and opid = "''op1''" and status = "''running''"
      and bmeta = "mk_meta [mk_rs ''rs0'' ''running'' [], mk_rs ''rs1'' ''running'' []]"
      and ct = "mk_ts 100 0" and shards = "[mk_sh ''rs0'', mk_sh ''rs1'']"
      and evs' = "[Tick (\<lambda>s. s), Tick (\<lambda>s. s)]"
      and cn0 = "restore_store [mk_rs ''rs0'' ''running'' [], mk_rs ''rs1'' ''running'' []] (locks_beat 90)"
      and evs = "[Tick (\<lambda>s. s)]"]
  by (simp add: cex_defs lock_alive_def keeps_log_def)

text \<open>
  Claim C4 as stated fails: after the commit, a repeated call of \<open>converged\<close> for the
  same target is not a pure read; the log of status writes grows again.
\<close>

theorem converged_repeated_call_writes_counterexample:
  "write_calls (snd (converged 30
      (snd (converged 30 (restore_store [mk_rs ''rs0'' ''running'' []] (locks_beat 90))
              ''r1'' ''op1'' [mk_sh ''rs0''] ''running''))
      ''r1'' ''op1'' [mk_sh ''rs0''] ''running''))
   \<noteq> write_calls (snd (converged 30 (restore_store [mk_rs ''rs0'' ''running'' []] (locks_beat 90))
              ''r1'' ''op1'' [mk_sh ''rs0''] ''running''))"
  by (simp add: cex_defs converged_defs)








section \<open>Properties of waitForStatus and of cancellation\<close>

lemma waitForStatus_not_created:
  assumes "\<forall>f\<in>set fs. \<forall>s. \<exists>err. GetRestoreMeta (f s) name = Inl err \<and> errIs err ErrNotFound"
  shows "waitForStatus sf cn name status (map Tick fs @ evs)
           = waitForStatus sf (fold (\<lambda>f s. f s) fs cn) name status evs"
  using assms
proof (induction fs arbitrary: cn)
  case Nil
  show ?case by simp
next
  case (Cons f fs)
  then obtain err where "GetRestoreMeta (f cn) name = Inl err" "errIs err ErrNotFound"
    by (metis list.set_intros(1))
  then show ?case using Cons by simp
qed

lemma waitForStatus_nil_needs_target:
  "waitForStatus sf cn name status (map Tick fs) = Some None \<Longrightarrow>
     \<exists>k<length fs. \<exists>meta. GetRestoreMeta (fold (\<lambda>f s. f s) (take (Suc k) fs) cn) name = Inr meta
        \<and> rm_Status meta = status"
proof (induction fs arbitrary: cn)
  case Nil
  then show ?case by simp
next
  case (Cons f fs)
  show ?case
  proof (cases "waitForStatus sf cn name status (map Tick (f # fs)) = waitForStatus sf (f cn) name status (map Tick fs)")
    case True
    with Cons.prems have "waitForStatus sf (f cn) name status (map Tick fs) = Some None" by simp
    from Cons.IH [OF this] obtain k meta where
      "k < length fs" "GetRestoreMeta (fold (\<lambda>f s. f s) (take (Suc k) fs) (f cn)) name = Inr meta"
      "rm_Status meta = status" by blast
    then have "Suc k < length (f # fs) \<and> GetRestoreMeta (fold (\<lambda>f s. f s) (take (Suc (Suc k)) (f # fs)) cn) name = Inr meta
        \<and> rm_Status meta = status" by simp
    then show ?thesis by blast
  next
    case False
    with Cons.prems obtain meta where "GetRestoreMeta (f cn) name = Inr meta" "rm_Status meta = status"
      by (auto split: sum.splits if_splits)
    then have "0 < length (f # fs) \<and> GetRestoreMeta (fold (\<lambda>f s. f s) (take (Suc 0) (f # fs)) cn) name = Inr meta
        \<and> rm_Status meta = status" by simp
    then show ?thesis by blast
  qed
qed

text \<open>
  Claim C8, as the code has it. \<open>waitForStatus\<close> polls the global restore record.
  While every poll finds the record not yet created, the loop goes on without an error.
  At a poll that reads the record and the cluster time: a heartbeat that lags the
  cluster time by more than the stale frame ends the loop with the "restore stuck"
  error. When the heartbeat does not lag by more than the stale frame, and the
  heartbeat's seconds plus the stale frame fit the 32 bits of a timestamp's seconds, a
  status equal to the target ends the loop with \<^verbatim>\<open>nil\<close>; otherwise the error
  status ends it with an error that carries the record's message; and any other status
  leaves the loop polling. A run of polls ends with \<^verbatim>\<open>nil\<close> only if one of them
  read a record in the target status.
\<close>

theorem waitForStatus_outcomes:
  "((\<forall>f\<in>set fs. \<forall>s. \<exists>err. GetRestoreMeta (f s) name = Inl err \<and> errIs err ErrNotFound) \<longrightarrow>
      waitForStatus sf cn name status (map Tick fs) = None
      \<and> waitForStatus sf cn name status (map Tick fs @ evs)
           = waitForStatus sf (fold (\<lambda>f s. f s) fs cn) name status evs)
   \<and> (GetRestoreMeta (others cn) name = Inr meta \<and> ClusterTime (others cn) = Inr ct
        \<and> unat (ts_T (rm_Hb meta)) + unat sf < unat (ts_T ct) \<longrightarrow>
      waitForStatus sf cn name status (Tick others # evs)
        = Some (Some (ErrNew (''restore stuck, last beat ts: '' @ fmt_d (unat (ts_T (rm_Hb meta)))))))
   \<and> (GetRestoreMeta (others cn) name = Inr meta \<and> ClusterTime (others cn) = Inr ct
        \<and> unat (ts_T ct) \<le> unat (ts_T (rm_Hb meta)) + unat sf
        \<and> unat (ts_T (rm_Hb meta)) + unat sf < 2 ^ 32 \<longrightarrow>
      waitForStatus sf cn name status (Tick others # evs)
        = (if rm_Status meta = status then Some None
           else if rm_Status meta = StatusError
           then Some (Some (ErrNew (''cluster failed: '' @ rm_Error meta)))
           else waitForStatus sf (others cn) name status evs))
   \<and> sublist (rm_Error meta) (Error_msg (ErrNew (''cluster failed: '' @ rm_Error meta)))
   \<and> (waitForStatus sf cn name status (map Tick fs) = Some None \<longrightarrow>
        (\<exists>k<length fs. \<exists>m. GetRestoreMeta (fold (\<lambda>f s. f s) (take (Suc k) fs) cn) name = Inr m
           \<and> rm_Status m = status))"
proof (intro conjI impI)
  assume h: "\<forall>f\<in>set fs. \<forall>s. \<exists>err. GetRestoreMeta (f s) name = Inl err \<and> errIs err ErrNotFound"
  show "waitForStatus sf cn name status (map Tick fs @ evs)
           = waitForStatus sf (fold (\<lambda>f s. f s) fs cn) name status evs"
    by (rule waitForStatus_not_created [OF h])
  show "waitForStatus sf cn name status (map Tick fs) = None"
    using waitForStatus_not_created [OF h, of sf cn status "[]"] by simp
next
  assume h: "GetRestoreMeta (others cn) name = Inr meta \<and> ClusterTime (others cn) = Inr ct
        \<and> unat (ts_T (rm_Hb meta)) + unat sf < unat (ts_T ct)"
  then have "ts_T (rm_Hb meta) + sf < ts_T ct" by (intro unat_stale) simp
  with h show "waitForStatus sf cn name status (Tick others # evs)
        = Some (Some (ErrNew (''restore stuck, last beat ts: '' @ fmt_d (unat (ts_T (rm_Hb meta))))))"
    by simp
next
  assume h: "GetRestoreMeta (others cn) name = Inr meta \<and> ClusterTime (others cn) = Inr ct
        \<and> unat (ts_T ct) \<le> unat (ts_T (rm_Hb meta)) + unat sf
        \<and> unat (ts_T (rm_Hb meta)) + unat sf < 2 ^ 32"
  then have "\<not> ts_T (rm_Hb meta) + sf < ts_T ct" by (intro unat_fresh) simp_all
  with h show "waitForStatus sf cn name status (Tick others # evs)
        = (if rm_Status meta = status then Some None
           else if rm_Status meta = StatusError
           then Some (Some (ErrNew (''cluster failed: '' @ rm_Error meta)))
           else waitForStatus sf (others cn) name status evs)"
    by simp
next
  have "sublist (rm_Error meta) (''cluster failed: '' @ rm_Error meta @ [])"
    by (rule sublist_appendI)
  then show "sublist (rm_Error meta) (Error_msg (ErrNew (''cluster failed: '' @ rm_Error meta)))"
    by simp
next
  assume "waitForStatus sf cn name status (map Tick fs) = Some None"
  then show "\<exists>k<length fs. \<exists>m. GetRestoreMeta (fold (\<lambda>f s. f s) (take (Suc k) fs) cn) name = Inr m
           \<and> rm_Status m = status"
    by (rule waitForStatus_nil_needs_target)
qed

text \<open>
  Two polls before the record exists; a record whose heartbeat is at 10 with the cluster
  time at 100 and the stale frame 30; a record in the target status; a record in the
  error status with the message "disk full"; and a record in the status "starting",
  after which the loop is still polling.
\<close>

theorem waitForStatus_outcomes_witness:
  "waitForStatus 30 store0 ''r1'' ''running'' (map Tick [\<lambda>_. store0, \<lambda>_. store0]) = None
   \<and> waitForStatus 30 store0 ''r1'' ''running''
        (Tick (\<lambda>_. meta_store ((mk_meta [])\<lparr>rm_Hb := mk_ts 10 0, rm_Status := ''running''\<rparr>)) # [])
       = Some (Some (ErrNew ''restore stuck, last beat ts: 10''))
   \<and> waitForStatus 30 store0 ''r1'' ''running''
        (Tick (\<lambda>_. meta_store ((mk_meta [])\<lparr>rm_Status := ''running''\<rparr>)) # []) = Some None
   \<and> waitForStatus 30 store0 ''r1'' ''running''
        (Tick (\<lambda>_. meta_store ((mk_meta [])\<lparr>rm_Status := ''error'', rm_Error := ''disk full''\<rparr>)) # [])
       = Some (Some (ErrNew ''cluster failed: disk full''))
   \<and> waitForStatus 30 store0 ''r1'' ''running''
        (Tick (\<lambda>_. meta_store (mk_meta [])) # []) = None
   \<and> (\<exists>m. GetRestoreMeta (meta_store ((mk_meta [])\<lparr>rm_Status := ''running''\<rparr>)) ''r1'' = Inr m
          \<and> rm_Status m = ''running'')"
  using
    waitForStatus_outcomes [where sf = 30 and cn = store0 and name = "''r1''" and status = "''running''"
      and fs = "[\<lambda>_. store0, \<lambda>_. store0]" and evs = "[]"
      and others = "\<lambda>_. meta_store ((mk_meta [])\<lparr>rm_Hb := mk_ts 10 0, rm_Status := ''running''\<rparr>)"
      and meta = "(mk_meta [])\<lparr>rm_Hb := mk_ts 10 0, rm_Status := ''running''\<rparr>" and ct = "mk_ts 100 0"]
    waitForStatus_outcomes [where sf = 30 and cn = store0 and name = "''r1''" and status = "''running''"
      and fs = "[\<lambda>_. meta_store ((mk_meta [])\<lparr>rm_Status := ''running''\<rparr>)]" and evs = "[]"
      and others = "\<lambda>_. meta_store ((mk_meta [])\<lparr>rm_Status := ''running''\<rparr>)"
      and meta = "(mk_meta [])\<lparr>rm_Status := ''running''\<rparr>" and ct = "mk_ts 100 0"]
    waitForStatus_outcomes [where sf = 30 and cn = store0 and name = "''r1''" and status = "''running''"
      and fs = "[]" and evs = "[]"
      and others = "\<lambda>_. meta_store ((mk_meta [])\<lparr>rm_Status := ''error'', rm_Error := ''disk full''\<rparr>)"
      and meta = "(mk_meta [])\<lparr>rm_Status := ''error'', rm_Error := ''disk full''\<rparr>" and ct = "mk_ts 100 0"]
    waitForStatus_outcomes [where sf = 30 and cn = store0 and name = "''r1''" and status = "''running''"
      and fs = "[]" and evs = "[]"
      and others = "\<lambda>_. meta_store (mk_meta [])"
      and meta = "mk_meta []" and ct = "mk_ts 100 0"]
  by (simp add: cex_defs meta_store_def fmt_d.simps digit_def)

text \<open>
  Claim C8 as stated fails where the sum wraps around: the heartbeat and the cluster
  time are both at 4294967295 seconds, so the heartbeat does not lag at all, and the
  record is in the target status. \<^verbatim>\<open>meta.Hb.T+pbm.StaleFrameSec\<close> is 29 in 32 bits,
  below the cluster time, and the loop ends with "restore stuck" instead of \<^verbatim>\<open>nil\<close>.
\<close>

theorem waitForStatus_wrapped_heartbeat_counterexample:
  "waitForStatus 30 store0 ''r1'' ''running''
     [Tick (\<lambda>_. (meta_store ((mk_meta [])\<lparr>rm_Hb := mk_ts 4294967295 0, rm_Status := ''running''\<rparr>))
                   \<lparr>ClusterTime := Inr (mk_ts 4294967295 0)\<rparr>)]
     = Some (Some (ErrNew ''restore stuck, last beat ts: 4294967295''))
   \<and> unat (4294967295 :: 32 word) \<le> unat (4294967295 :: 32 word) + unat (30 :: 32 word)"
  by (simp add: cex_defs meta_store_def fmt_d.simps digit_def)

lemma convergeCluster_append:
  assumes "fst (convergeCluster sf cn name opid shards status evs) = None"
  shows "convergeCluster sf cn name opid shards status (evs @ rest)
           = convergeCluster sf (snd (convergeCluster sf cn name opid shards status evs))
               name opid shards status rest"
  using assms
proof (induction sf cn name opid shards status evs rule: convergeCluster.induct)
  case (1 sf cn name opid shards status)
  show ?case by simp
next
  case (2 sf cn name opid shards status evs)
  then show ?case by simp
next
  case (3 sf cn name opid shards status others evs)
  obtain ok err cn' where c: "converged sf (others cn) name opid shards status = ((ok, err), cn')"
    by (metis surj_pair)
  show ?case
  proof (cases err)
    case (Some e)
    with c "3.prems" show ?thesis by simp
  next
    case None
    show ?thesis
    proof (cases ok)
      case True
      with c None "3.prems" show ?thesis by simp
    next
      case False
      with c None "3.prems" "3.IH" [of "(ok, err)" cn' ok err] show ?thesis by simp
    qed
  qed
qed

lemma convergeClusterWithTimeout_append:
  assumes "fst (convergeClusterWithTimeout sf cn name opid shards status evs) = None"
  shows "convergeClusterWithTimeout sf cn name opid shards status (evs @ rest)
           = convergeClusterWithTimeout sf (snd (convergeClusterWithTimeout sf cn name opid shards status evs))
               name opid shards status rest"
  using assms
proof (induction sf cn name opid shards status evs rule: convergeClusterWithTimeout.induct)
  case (1 sf cn name opid shards status)
  show ?case by simp
next
  case (2 sf cn name opid shards status evs)
  then show ?case by simp
next
  case (3 sf cn name opid shards status evs)
  then show ?case by simp
next
  case (4 sf cn name opid shards status others evs)
  obtain ok err cn' where c: "converged sf (others cn) name opid shards status = ((ok, err), cn')"
    by (metis surj_pair)
  show ?case
  proof (cases err)
    case (Some e)
    with c "4.prems" show ?thesis by simp
  next
    case None
    show ?thesis
    proof (cases ok)
      case True
      with c None "4.prems" show ?thesis by simp
    next
      case False
      with c None "4.prems" "4.IH" [of "(ok, err)" cn' ok err] show ?thesis by simp
    qed
  qed
qed

lemma waitForStatus_append:
  assumes "waitForStatus sf cn name status evs = None"
  shows "waitForStatus sf cn name status (evs @ Cancelled # rest) = Some None"
  using assms
proof (induction sf cn name status evs rule: waitForStatus.induct)
  case (1 sf cn name status)
  show ?case by simp
next
  case (2 sf cn name status evs)
  then show ?case by simp
next
  case (3 sf cn name status others evs)
  then show ?case
    by (auto split: sum.splits if_splits)
qed

text \<open>
  Claim C9. Whenever one of the three loops is still polling after the events so far,
  whatever the store holds by then, and its next \<^verbatim>\<open>select\<close> takes the context's
  \<^verbatim>\<open>Done\<close> case, the loop returns \<^verbatim>\<open>nil\<close>; the leader's loops leave the store
  as the last poll left it.
\<close>

theorem polling_loops_return_nil_on_cancel:
  "(fst (convergeCluster sf cn name opid shards status evs) = None \<longrightarrow>
      convergeCluster sf cn name opid shards status (evs @ Cancelled # rest)
        = (Some None, snd (convergeCluster sf cn name opid shards status evs)))
   \<and> (fst (convergeClusterWithTimeout sf cn name opid shards status tevs) = None \<longrightarrow>
      convergeClusterWithTimeout sf cn name opid shards status (tevs @ CancelledT # trest)
        = (Some None, snd (convergeClusterWithTimeout sf cn name opid shards status tevs)))
   \<and> (waitForStatus sf cn name status evs = None \<longrightarrow>
      waitForStatus sf cn name status (evs @ Cancelled # rest) = Some None)"
  by (simp add: convergeCluster_append convergeClusterWithTimeout_append waitForStatus_append)

text \<open>
  One poll that finds the shard still "starting" (or the record in another status), then
  the cancellation: each loop returns \<^verbatim>\<open>nil\<close> although nothing converged.
\<close>

theorem polling_loops_return_nil_on_cancel_witness:
  "convergeCluster 30 store0 ''r1'' ''op1'' [mk_sh ''rs0''] ''running''
      ([Tick (\<lambda>_. restore_store [mk_rs ''rs0'' ''starting'' []] (locks_beat 90))] @ Cancelled # [])
     = (Some None, restore_store [mk_rs ''rs0'' ''starting'' []] (locks_beat 90))
   \<and> convergeClusterWithTimeout 30 store0 ''r1'' ''op1'' [mk_sh ''rs0''] ''running''
      ([TickT (\<lambda>_. restore_store [mk_rs ''rs0'' ''starting'' []] (locks_beat 90))] @ CancelledT # [TimedOut])
     = (Some None, restore_store [mk_rs ''rs0'' ''starting'' []] (locks_beat 90))
   \<and> waitForStatus 30 store0 ''r1'' ''running''
      ([Tick (\<lambda>_. meta_store (mk_meta []))] @ Cancelled # []) = Some None"
  using
    polling_loops_return_nil_on_cancel [where sf = 30 and cn = store0 and name = "''r1''"
      and opid = "''op1''" and shards = "[mk_sh ''rs0'']" and status = "''running''"
      and evs = "[Tick (\<lambda>_. restore_store [mk_rs ''rs0'' ''starting'' []] (locks_beat 90))]"
      and rest = "[]"
      and tevs = "[TickT (\<lambda>_. restore_store [mk_rs ''rs0'' ''starting'' []] (locks_beat 90))]"
      and trest = "[TimedOut]"]
    polling_loops_return_nil_on_cancel [where sf = 30 and cn = store0 and name = "''r1''"
      and opid = "''op1''" and shards = "[mk_sh ''rs0'']" and status = "''running''"
      and evs = "[Tick (\<lambda>_. meta_store (mk_meta []))]" and rest = "[]"
      and tevs = "[]" and trest = "[]"]
  by (simp add: cex_defs converged_defs meta_store_def)

section \<open>Properties of the replay loop\<close>





section \<open>Properties of the node priorities\<close>

lemma f64map_get_NaN: "f64map_get m NaN = None"
  by (induction m) (simp_all add: f64_eq_def)

lemma f64map_get_put:
  "k \<noteq> NaN \<Longrightarrow> f64map_get (f64map_put m k v) k' = (if k' = k then Some v else f64map_get m k')"
  by (induction m) (auto simp: f64_eq_def)

lemma f64map_get_put_NaN: "f64map_get (f64map_put m NaN v) k' = f64map_get m k'"
  by (induction m) (auto simp: f64_eq_def)

lemma ns_inv_empty: "ns_inv \<lparr>ns_idx = [], ns_m = []\<rparr> []"
  by (simp add: ns_inv_def numbers_def)

lemma ns_inv_add:
  assumes "ns_inv s ps"
  shows "ns_inv (nodeScores_add s n sc) (ps @ [(n, sc)])"
proof (cases "sc = NaN")
  case True
  then show ?thesis
    using assms
    by (auto simp: ns_inv_def nodeScores_add_def f64map_get_NaN f64map_get_put_NaN numbers_def nodes_with_def)
next
  case num: False
  show ?thesis
  proof (cases "sc \<in> snd ` set ps")
    case True
    with assms num have m: "f64map_get (ns_m s) sc = Some (nodes_with ps sc)" by (simp add: ns_inv_def)
    show ?thesis
      using assms True m num
      by (auto simp: ns_inv_def nodeScores_add_def nodes_with_def f64map_get_put numbers_def)
  next
    case False
    with assms num have m: "f64map_get (ns_m s) sc = None" by (simp add: ns_inv_def)
    have "nodes_with ps sc = []"
      using False by (auto simp: nodes_with_def filter_empty_conv image_iff)
    moreover have "sc \<notin> set (numbers (ns_idx s))"
      using assms False by (auto simp: ns_inv_def numbers_def)
    ultimately show ?thesis
      using assms False m num
      by (auto simp: ns_inv_def nodeScores_add_def nodes_with_def f64map_get_put numbers_def)
  qed
qed

lemma ns_inv_adds:
  "ns_inv s qs \<Longrightarrow> ns_inv (adds s ps) (qs @ ps)"
proof (induction ps arbitrary: s qs)
  case Nil
  then show ?case by simp
next
  case (Cons p ps)
  have "ns_inv (nodeScores_add s (fst p) (snd p)) (qs @ [(fst p, snd p)])"
    by (rule ns_inv_add [OF Cons.prems])
  from Cons.IH [OF this] show ?case by simp
qed

lemma loop_np_m:
  "np_m (bcpNodesPriority_loop f agents scores) rs =
     (if added f agents rs = [] then np_m scores rs
      else Some (adds (case np_m scores rs of
                         None \<Rightarrow> \<lparr>ns_idx = [], ns_m = []\<rparr>
                       | Some s0 \<Rightarrow> s0) (added f agents rs)))"
proof (induction agents arbitrary: scores)
  case Nil
  show ?case by (simp add: added_def)
next
  case (Cons a agents)
  show ?case
  proof (cases "AgentStat_OK a")
    case False
    then show ?thesis using Cons.IH [of scores] by (simp add: added_def)
  next
    case ok: True
    show ?thesis
    proof (cases "RS a = rs")
      case False
      then have "np_m (NodesPriority_Add scores (RS a) (Node a) (f a)) rs = np_m scores rs"
        by (simp add: NodesPriority_Add_def Let_def)
      then show ?thesis
        using ok False Cons.IH [of "NodesPriority_Add scores (RS a) (Node a) (f a)"]
        by (simp add: added_def)
    next
      case True
      then have "np_m (NodesPriority_Add scores (RS a) (Node a) (f a)) rs =
          Some (nodeScores_add (case np_m scores rs of
                         None \<Rightarrow> \<lparr>ns_idx = [], ns_m = []\<rparr>
                       | Some s0 \<Rightarrow> s0) (Node a) (f a))"
        by (simp add: NodesPriority_Add_def Let_def)
      then show ?thesis
        using ok True Cons.IH [of "NodesPriority_Add scores (RS a) (Node a) (f a)"]
        by (simp add: added_def)
    qed
  qed
qed

text \<open>
  The order of \<^verbatim>\<open>sort.Float64Slice\<close> is the order of the ranks, the ranks tell the
  values apart, and so the sorted index is determined by the contract of
  \<^verbatim>\<open>sort.Sort\<close>: a permutation of the index in which no element is less, in the
  reversed order, than an earlier one.
\<close>

lemma f64_rank_inj: "inj_on f64_rank A"
proof (rule inj_onI)
  fix a b assume "f64_rank a = f64_rank b"
  then show "a = b" by (cases a; cases b) simp_all
qed

lemma Float64Slice_Less_rank: "Float64Slice_Less a b \<longleftrightarrow> f64_rank a < f64_rank b"
  by (cases a; cases b) (simp_all add: Float64Slice_Less_def)


lemma sort_desc_sorted: "sorted_wrt (\<lambda>a b. \<not> Float64Slice_Less a b) (sort_desc xs)"
proof -
  have "sorted (map f64_rank (sort_key f64_rank xs))" by simp
  then have "sorted_wrt (\<lambda>a b. f64_rank a \<le> f64_rank b) (sort_key f64_rank xs)"
    by (simp add: sorted_map)
  then have "sorted_wrt (\<lambda>a b. f64_rank b \<le> f64_rank a) (rev (sort_key f64_rank xs))"
    by (simp add: sorted_wrt_rev)
  then show ?thesis
    by (simp add: sort_desc_def Float64Slice_Less_rank not_less)
qed

lemma sort_desc_contract:
  assumes "mset ys = mset xs" and "sorted_wrt (\<lambda>a b. \<not> Float64Slice_Less a b) ys"
  shows "ys = sort_desc xs"
proof -
  from assms(2) have "sorted_wrt (\<lambda>a b. f64_rank b \<le> f64_rank a) ys"
    by (simp add: Float64Slice_Less_rank not_less)
  then have "sorted_wrt (\<lambda>a b. f64_rank a \<le> f64_rank b) (rev ys)"
    by (simp add: sorted_wrt_rev)
  then have "sorted (map f64_rank (rev ys))"
    by (simp add: sorted_map)
  moreover have "mset xs = mset (rev ys)" using assms(1) by simp
  ultimately have "sort_key f64_rank xs = rev ys"
    by (intro sort_key_inj_key_eq f64_rank_inj)
  then show ?thesis by (simp add: sort_desc_def)
qed

lemma sorted_wrt_replicate_refl: "P x x \<Longrightarrow> sorted_wrt P (replicate n x)"
  by (induction n) simp_all

lemma sort_desc_NaN_last:
  "sort_desc xs = sort_desc (numbers xs) @ replicate (length (filter (\<lambda>x. x = NaN) xs)) NaN"
proof (rule sort_desc_contract [symmetric])
  have "replicate (length (filter (\<lambda>x. NaN = x) xs)) NaN = filter (\<lambda>x. NaN = x) xs"
    by (rule replicate_length_filter)
  then have r: "replicate (length (filter (\<lambda>x. x = NaN) xs)) NaN = filter (\<lambda>x. x = NaN) xs"
    by (simp add: eq_commute)
  show "mset (sort_desc (numbers xs) @ replicate (length (filter (\<lambda>x. x = NaN) xs)) NaN) = mset xs"
    unfolding r by (simp add: sort_desc_def numbers_def)
  show "sorted_wrt (\<lambda>a b. \<not> Float64Slice_Less a b)
          (sort_desc (numbers xs) @ replicate (length (filter (\<lambda>x. x = NaN) xs)) NaN)"
  proof -
    have a: "sorted_wrt (\<lambda>a b. \<not> Float64Slice_Less a b) (sort_desc (numbers xs))"
      by (rule sort_desc_sorted)
    have b: "sorted_wrt (\<lambda>a b. \<not> Float64Slice_Less a b)
               (replicate (length (filter (\<lambda>x. x = NaN) xs)) NaN)"
      by (rule sorted_wrt_replicate_refl) (simp add: Float64Slice_Less_def)
    have c: "\<not> Float64Slice_Less x NaN" for x
      by (cases x) (simp_all add: Float64Slice_Less_def)
    show ?thesis
      using a b c by (simp add: sorted_wrt_append)
  qed
qed

lemma sort_desc_same:
  assumes "distinct xs" and "distinct ys" and "set xs = set ys"
  shows "sort_desc xs = sort_desc ys"
proof -
  have "mset xs = mset ys" using assms by (simp add: set_eq_iff_mset_eq_distinct)
  then have "sort_key f64_rank xs = sort_key f64_rank ys"
    by (intro sort_key_eq_sort_key f64_rank_inj)
  then show ?thesis by (simp add: sort_desc_def)
qed


lemma RS_groups_eq:
  "fst (NodesPriority_RS (bcpNodesPriority agents f) rs)
     = map (nodes_with (added f agents rs)) (sort_desc (remdups (numbers (map snd (added f agents rs)))))
       @ replicate (length (filter (\<lambda>p. snd p = NaN) (added f agents rs))) []"
proof (cases "added f agents rs = []")
  case True
  then have "np_m (bcpNodesPriority agents f) rs = None"
    by (simp add: bcpNodesPriority_def loop_np_m NewNodesPriority_def)
  then show ?thesis using True by (simp add: NodesPriority_RS_def sort_desc_def numbers_def)
next
  case False
  let ?ps = "added f agents rs"
  let ?s = "adds \<lparr>ns_idx = [], ns_m = []\<rparr> ?ps"
  let ?k = "length (filter (\<lambda>p. snd p = NaN) ?ps)"
  let ?get = "\<lambda>sc. case f64map_get (ns_m ?s) sc of None \<Rightarrow> [] | Some nodes \<Rightarrow> nodes"
  have m: "np_m (bcpNodesPriority agents f) rs = Some ?s"
    using False by (simp add: bcpNodesPriority_def loop_np_m NewNodesPriority_def)
  have inv: "ns_inv ?s ?ps"
    using ns_inv_adds [OF ns_inv_empty, of ?ps] by simp
  have "sort_desc (numbers (ns_idx ?s)) = sort_desc (remdups (numbers (map snd ?ps)))"
    using inv by (intro sort_desc_same) (simp_all add: ns_inv_def)
  then have idx: "sort_desc (ns_idx ?s) = sort_desc (remdups (numbers (map snd ?ps))) @ replicate ?k NaN"
    using inv sort_desc_NaN_last [of "ns_idx ?s"] by (simp add: ns_inv_def)
  have g: "?get sc = nodes_with ?ps sc"
    if "sc \<in> set (sort_desc (remdups (numbers (map snd ?ps))))" for sc
  proof -
    from that have "sc \<noteq> NaN" "sc \<in> snd ` set ?ps"
      by (auto simp: sort_desc_def numbers_def)
    with inv show ?thesis by (simp add: ns_inv_def)
  qed
  have "map ?get (sort_desc (ns_idx ?s))
      = map ?get (sort_desc (remdups (numbers (map snd ?ps)))) @ map ?get (replicate ?k NaN)"
    unfolding idx by simp
  also have "map ?get (sort_desc (remdups (numbers (map snd ?ps))))
      = map (nodes_with ?ps) (sort_desc (remdups (numbers (map snd ?ps))))"
    using g by (intro map_cong) simp_all
  also have "map ?get (replicate ?k NaN) = replicate ?k []"
    by (simp add: f64map_get_NaN)
  finally show ?thesis
    using m by (simp add: NodesPriority_RS_def nodeScores_list_def Let_def split: prod.splits)
qed


lemmas prio_defs = agents5_def mk_agent_def added_def nodes_with_def numbers_def sort_desc_def
  AgentStat_OK_def score_defaults_def score_config_def agentScore_def map_get_def map_len_def
  defaultScore_def



text \<open>
  The scoring of claim C6 for a nil and for a non-empty priority map: with no priority
  map the first matching of coefficient, primary, hidden and default applies; with a
  non-empty priority map the configured score applies, and the default when the node is
  absent or its score is negative.
\<close>

lemma agentScore_rules:
  "Backup_Priority cfg = None \<Longrightarrow>
     agentScore c cfg a =
       (case map_get c (Node a) of
          Some coeff \<Rightarrow> f64_mul (Fin defaultScore) coeff
        | None \<Rightarrow> if State a = NodeStatePrimary then Fin (defaultScore / 2)
                   else if Hidden a then Fin (defaultScore * 2) else Fin defaultScore)"
  "0 < map_len (Backup_Priority cfg) \<Longrightarrow>
     agentScore c cfg a =
       (case map_get (Backup_Priority cfg) (Node a) of
          None \<Rightarrow> Fin defaultScore
        | Some sc \<Rightarrow> if f64_less sc (Fin 0) then Fin defaultScore else sc)"
  by (auto simp: agentScore_def score_defaults_def score_config_def map_len_def map_get_def
      split: option.splits)

lemma agentScore_empty_priority_map:
  "agentScore c \<lparr>Backup_Priority = Some []\<rparr> a = Fin defaultScore"
  by (simp add: agentScore_def score_config_def map_get_def)

text \<open>
  Claim C6 at an empty, non-nil priority map. The test
  \<^verbatim>\<open>cfg.Backup.Priority != nil || len(cfg.Backup.Priority) > 0\<close> holds for it, so the
  configured branch scores every node with the default 1.0: the coefficient 3 of
  \<open>n1\<close> is ignored, the primary \<open>n2\<close> is not halved and the hidden \<open>n3\<close> is not
  doubled, and the three healthy nodes of \<open>rs0\<close> form one group.
\<close>

theorem BcpNodesPriority_empty_priority_map:
  "(case BcpNodesPriority (store0\<lparr>GetConfig := Inr \<lparr>Backup_Priority = Some []\<rparr>\<rparr>)
           (Some [(''n1'', Fin 3)]) agents5 of
      Inl err \<Rightarrow> []
    | Inr np \<Rightarrow> fst (NodesPriority_RS np ''rs0'')) = [[''n1'', ''n2'', ''n3'']]"
  by (simp add: BcpNodesPriority_def RS_groups_eq agentScore_empty_priority_map store0_def
      agents5_def mk_agent_def added_def nodes_with_def numbers_def sort_desc_def AgentStat_OK_def
      defaultScore_def)

text \<open>
  With a nil priority map the same call follows the claim's second rule: coefficient 3
  for \<open>n1\<close>, then the hidden node, then the primary.
\<close>

lemma BcpNodesPriority_no_priority_map:
  "(case BcpNodesPriority store0 (Some [(''n1'', Fin 3)]) agents5 of
      Inl err \<Rightarrow> []
    | Inr np \<Rightarrow> fst (NodesPriority_RS np ''rs0'')) = [[''n1''], [''n3''], [''n2'']]"
  by (simp add: BcpNodesPriority_def RS_groups_eq store0_def prio_defs)

end
